theory Spec2Isabelle
  imports Main "HOL-Library.AList"
begin

section \<open>JavaScript values and objects\<close>

text \<open>
  The watcher stores and compares arbitrary JavaScript values (\<open>any\<close>). Only strict
  equality of values matters to it, so a value is a primitive or the address of an
  object. Of the numbers only their equality is used: they are the integers and
  \<open>NaN\<close>, the one number that is not strictly equal to itself.
\<close>

type_synonym addr = nat
type_synonym eid = nat

datatype val = Undefined | Null | VBool bool | VNum int | VNaN | VStr string | VRef addr

text \<open>\<open>a === b\<close>; the source writes its negation \<open>a !== b\<close>.\<close>

definition strict_eq :: "val \<Rightarrow> val \<Rightarrow> bool" where
  "strict_eq a b = (a \<noteq> VNaN \<and> a = b)"

text \<open>
  An object is the map of the properties that \<open>in\<close> finds on it. A property is a
  plain data property, or the accessor pair that \<open>realTime()\<close> installs with
  \<open>Object.defineProperty\<close>. The accessor is a closure: it owns the variable \<open>value\<close>
  and holds the entry object \<open>e\<close> it was created for. Accessors of the caller's own
  making, whose getters and setters run the caller's code, are outside the model.
\<close>

datatype slot = Data val | Accessor val eid

type_synonym object = "string \<rightharpoonup> slot"

section \<open>The engine\<close>

text \<open>
  \<open>WatchedEntry\<close> of the source. The field \<open>prop\<close> is written \<open>prop'\<close>. In version
  2.1.0 the first field is \<open>instanceRef: WeakRef\<close>, in version 2.0.0 it is the strong
  reference \<open>instance\<close>; both are the address of the target.
\<close>

record WatchedEntry =
  instanceRef :: addr
  prop' :: string
  key :: string
  lastValue :: val

text \<open>
  \<open>EyeOnPropsMode\<close> is \<open>'all' | 'changed' | 'undefined'\<close> and \<open>EyeOnPropsType\<close> is
  \<open>'clock' | 'real-time' | 'undefined'\<close>.
\<close>

datatype EyeOnPropsMode = ModeAll | ModeChanged | ModeUndefined

datatype EyeOnPropsType = TypeClock | TypeRealTime | TypeUndefined

text \<open>The \<open>{new, old}\<close> pair of a \<open>change:full\<close> payload.\<close>

datatype delta = Delta (new_value: val) (old_value: val)

text \<open>
  A payload, \<open>Record<string, V>\<close>: the own properties of the object, as pairs in the
  order the keys were first stored. \<open>Object.keys(payload).length > 0\<close> says the list
  is not empty. No property below depends on the order of the pairs.
\<close>

type_synonym 'v payload = "(string \<times> 'v) list"

text \<open>
  The store \<open>payload[k] = v\<close> into an object that began as the literal \<open>{}\<close>. The
  object is its own pairs and whether its prototype has become \<open>null\<close>. Under any key
  but \<open>__proto__\<close> the store overwrites the value of an own property in place or adds
  the pair (\<open>AList.update\<close>). Under \<open>__proto__\<close> it finds the accessor that
  \<open>Object.prototype\<close> has for that name and runs its setter, which adds no own
  property: an object becomes the prototype of the payload, \<open>null\<close> removes the
  prototype, any other value is ignored. Once the prototype is \<open>null\<close> no setter is
  found and \<open>__proto__\<close> is stored like any other key. The objects that become
  prototypes are ordinary ones: a read-only property or an accessor that a later store
  would find on one of them is outside the model.
\<close>

definition store_prop :: "string \<Rightarrow> val \<Rightarrow> val payload \<times> bool \<Rightarrow> val payload \<times> bool" where
  "store_prop k v obj =
     (case obj of
        (own, null_proto) \<Rightarrow>
          if k = ''__proto__'' \<and> \<not> null_proto then (own, v = Null)
          else (AList.update k v own, null_proto))"

text \<open>
  The same store when the value is a \<open>{new, old}\<close> object: under \<open>__proto__\<close> that
  object becomes the prototype, so the prototype is never \<open>null\<close>.
\<close>

definition store_prop_full :: "string \<Rightarrow> delta \<Rightarrow> delta payload \<Rightarrow> delta payload" where
  "store_prop_full k d own = (if k = ''__proto__'' then own else AList.update k d own)"

text \<open>
  What \<open>this.emit\<close> hands to the event channel: the name of the event and the own
  properties of the payload.
\<close>

datatype event = Change "val payload" | ChangeFull "delta payload"

text \<open>
  The four \<open>throw new Error(...)\<close> of the source, under the names the specification
  gives them:
  \<^item> \<open>AttributeNotFoundError\<close>: "Property ... does not exist on the provided instance.";
  \<^item> \<open>IllegalStrategyTransitionError\<close>: "Cannot use clock() after realTime(): ...";
  \<^item> \<open>InvalidRegistrationArgumentsError\<close>: "Invalid arguments passed to watch()";
  \<^item> \<open>InvalidModeOperationError\<close>: "buildFullAllPayload() can only be called in 'all' mode.".
\<close>

datatype error =
    AttributeNotFoundError
  | IllegalStrategyTransitionError
  | InvalidRegistrationArgumentsError
  | InvalidModeOperationError

text \<open>
  The state a method of \<open>EyeOnProps\<close> runs in: the fields of the class and the part of
  the JavaScript heap they point into.
  \<^item> \<open>heap\<close>: the properties of every object;
  \<open>collected\<close>: the objects the garbage collector has reclaimed (a \<open>WeakRef\<close> to one
  of them dereferences to \<open>undefined\<close>);
  \<^item> \<open>cells\<close>: the entry objects, by identity. The array \<open>this.entries\<close> holds
  references to them, and so does each accessor closure; \<open>next_eid\<close> is the next fresh
  identity;
  \<^item> \<open>entries\<close>, \<open>mode\<close>, \<open>type\<close>, \<open>intervalId\<close>: the fields of the class.
  \<open>intervalId\<close> is \<open>None\<close> for \<open>null\<close> and holds the period of the running timer
  otherwise;
  \<^item> \<open>registry\<close>: the registrations \<open>(target, held value)\<close> of the
  \<open>FinalizationRegistry\<close>;
  \<^item> \<open>emitted\<close>: the events published so far, oldest first; \<open>warnings\<close>: the number of
  \<open>process.emitWarning\<close> calls.
  A method that throws yields the error and the state at the throw.
\<close>

record state =
  heap :: "addr \<Rightarrow> object"
  collected :: "addr \<Rightarrow> bool"
  cells :: "eid \<Rightarrow> WatchedEntry"
  next_eid :: eid
  entries :: "eid list"
  mode :: EyeOnPropsMode
  type :: EyeOnPropsType
  intervalId :: "int option"
  registry :: "(addr \<times> string) list"
  emitted :: "event list"
  warnings :: nat

text \<open>\<open>new EyeOnProps()\<close>, in a heap whose objects have no property yet.\<close>

definition new_EyeOnProps :: state where
  "new_EyeOnProps =
     \<lparr>heap = (\<lambda>a. Map.empty), collected = (\<lambda>a. False),
      cells = (\<lambda>i. \<lparr>instanceRef = 0, prop' = [], key = [], lastValue = Undefined\<rparr>),
      next_eid = 0, entries = [], mode = ModeChanged, type = TypeUndefined,
      intervalId = None, registry = [], emitted = [], warnings = 0\<rparr>"

subsection \<open>Reading and writing the heap\<close>

text \<open>\<open>prop in instance\<close>\<close>

definition has_prop :: "state \<Rightarrow> addr \<Rightarrow> string \<Rightarrow> bool" where
  "has_prop s a p = (heap s a p \<noteq> None)"

text \<open>\<open>instance[prop]\<close>: a missing property reads \<open>undefined\<close>, an accessor runs its
  getter \<open>() => value\<close>.\<close>

definition get_prop :: "state \<Rightarrow> addr \<Rightarrow> string \<Rightarrow> val" where
  "get_prop s a p =
     (case heap s a p of
        None \<Rightarrow> Undefined
      | Some (Data v) \<Rightarrow> v
      | Some (Accessor v e) \<Rightarrow> v)"

definition set_slot :: "addr \<Rightarrow> string \<Rightarrow> slot \<Rightarrow> state \<Rightarrow> state" where
  "set_slot a p sl s = s\<lparr>heap := (heap s)(a := (heap s a)(p \<mapsto> sl))\<rparr>"

text \<open>\<open>instanceRef.deref()\<close>\<close>

definition deref :: "state \<Rightarrow> addr \<Rightarrow> addr option" where
  "deref s r = (if collected s r then None else Some r)"

text \<open>\<open>e.lastValue = v\<close> on the entry object \<open>e\<close>.\<close>

definition set_lastValue :: "eid \<Rightarrow> val \<Rightarrow> state \<Rightarrow> state" where
  "set_lastValue i v s = s\<lparr>cells := (cells s)(i := (cells s i)\<lparr>lastValue := v\<rparr>)\<rparr>"

text \<open>
  \<open>this.emit(name, payload)\<close>: the event joins the published ones. The listeners
  are the caller's code and are outside the model.
\<close>

definition emit :: "event \<Rightarrow> state \<Rightarrow> state" where
  "emit ev s = s\<lparr>emitted := emitted s @ [ev]\<rparr>"

subsection \<open>Version 2.1.0: weak references\<close>

text \<open>\<open>addEntry(instance, prop, key)\<close>\<close>

definition addEntry :: "addr \<Rightarrow> string \<Rightarrow> string \<Rightarrow> state \<Rightarrow> error option \<times> state" where
  "addEntry instance p k s =
     (if \<not> has_prop s instance p then (Some AttributeNotFoundError, s)
      else (None,
        s\<lparr>cells := (cells s)(next_eid s :=
             \<lparr>instanceRef = instance, prop' = p, key = k, lastValue = get_prop s instance p\<rparr>),
          next_eid := Suc (next_eid s),
          entries := entries s @ [next_eid s],
          registry := registry s @ [(instance, k)]\<rparr>))"

text \<open>
  The second argument of \<open>watch\<close>: a string with the optional third argument, an array
  of \<open>[prop]\<close> or \<open>[prop, customKey]\<close>, or anything else.
\<close>

datatype watch_arg =
    Single string "string option"
  | Batch "(string \<times> string option) list"
  | Other

text \<open>\<open>key ?? prop\<close>\<close>

definition resolvedKey :: "string option \<Rightarrow> string \<Rightarrow> string" where
  "resolvedKey k p = (case k of None \<Rightarrow> p | Some k' \<Rightarrow> k')"

text \<open>The \<open>for\<close> loop of \<open>watch\<close>: the first \<open>addEntry\<close> that throws ends it.\<close>

fun watch_each :: "addr \<Rightarrow> (string \<times> string option) list \<Rightarrow> state \<Rightarrow> error option \<times> state" where
  "watch_each instance [] s = (None, s)"
| "watch_each instance ((p, customKey) # rest) s =
     (case addEntry instance p (resolvedKey customKey p) s of
        (Some err, s') \<Rightarrow> (Some err, s')
      | (None, s') \<Rightarrow> watch_each instance rest s')"

fun watch :: "addr \<Rightarrow> watch_arg \<Rightarrow> state \<Rightarrow> error option \<times> state" where
  "watch instance (Single p k) s = addEntry instance p (resolvedKey k p) s"
| "watch instance (Batch ps) s = watch_each instance ps s"
| "watch instance Other s = (Some InvalidRegistrationArgumentsError, s)"

definition clear :: "state \<Rightarrow> state" where
  "clear s = (if intervalId s \<noteq> None then s\<lparr>intervalId := None\<rparr> else s)"

text \<open>\<open>clock(ms)\<close>; the timer it starts calls \<open>check\<close> every \<open>ms\<close>.\<close>

definition clock :: "int \<Rightarrow> state \<Rightarrow> error option \<times> state" where
  "clock ms s =
     (if type s = TypeRealTime then (Some IllegalStrategyTransitionError, s)
      else (None, (clear (s\<lparr>type := TypeClock\<rparr>))\<lparr>intervalId := Some ms\<rparr>))"

definition all :: "state \<Rightarrow> state" where
  "all s = s\<lparr>mode := ModeAll\<rparr>"

definition changedOnly :: "state \<Rightarrow> state" where
  "changedOnly s = s\<lparr>mode := ModeChanged\<rparr>"

text \<open>\<open>buildAllPayload()\<close>: the loop, then the method.\<close>

fun buildAllPayload_loop :: "state \<Rightarrow> eid list \<Rightarrow> val payload \<times> bool \<Rightarrow> val payload \<times> bool" where
  "buildAllPayload_loop s [] payload = payload"
| "buildAllPayload_loop s (i # rest) payload =
     buildAllPayload_loop s rest
       (case deref s (instanceRef (cells s i)) of
          None \<Rightarrow> payload
        | Some instance \<Rightarrow>
            store_prop (key (cells s i)) (get_prop s instance (prop' (cells s i))) payload)"

definition buildAllPayload :: "state \<Rightarrow> val payload" where
  "buildAllPayload s = fst (buildAllPayload_loop s (entries s) ([], False))"

text \<open>\<open>buildFullAllPayload()\<close>\<close>

fun buildFullAllPayload_loop :: "state \<Rightarrow> eid list \<Rightarrow> delta payload \<Rightarrow> delta payload" where
  "buildFullAllPayload_loop s [] payload = payload"
| "buildFullAllPayload_loop s (i # rest) payload =
     buildFullAllPayload_loop s rest
       (case deref s (instanceRef (cells s i)) of
          None \<Rightarrow> payload
        | Some instance \<Rightarrow>
            store_prop_full (key (cells s i))
              (Delta (get_prop s instance (prop' (cells s i))) (lastValue (cells s i))) payload)"

definition buildFullAllPayload :: "state \<Rightarrow> error + delta payload" where
  "buildFullAllPayload s =
     (if mode s \<noteq> ModeAll then Inl InvalidModeOperationError
      else Inr (buildFullAllPayload_loop s (entries s) []))"

text \<open>
  The setter that \<open>realTime()\<close> installs on property \<open>p\<close> of object \<open>a\<close>, called with
  \<open>v\<close>. \<open>value\<close> and \<open>e\<close> are the variables of its closure; the new \<open>value\<close> is written
  back into the slot, where the getter reads it. The literals \<open>{ [e.key]: v }\<close> and
  \<open>{ [e.key]: { new: v, old: e.lastValue } }\<close> define an own property under the
  computed key, whatever the key is.
\<close>

definition realTime_set :: "addr \<Rightarrow> string \<Rightarrow> val \<Rightarrow> eid \<Rightarrow> val \<Rightarrow> state \<Rightarrow> error option \<times> state" where
  "realTime_set a p value e v s =
     (if \<not> strict_eq v value then
        (let s1 = set_slot a p (Accessor v e) s in
         if mode s1 \<noteq> ModeUndefined then
           (case (if mode s1 = ModeAll then buildFullAllPayload s1
                  else Inr (if \<not> strict_eq v (lastValue (cells s1 e))
                            then [(key (cells s1 e), Delta v (lastValue (cells s1 e)))]
                            else [])) of
              Inl err \<Rightarrow> (Some err, s1)
            | Inr fullPayload \<Rightarrow>
                (let payload = (if mode s1 = ModeAll then buildAllPayload s1
                                else [(key (cells s1 e), v)]);
                     s2 = (if payload \<noteq> [] then emit (Change payload) s1 else s1);
                     s3 = (if fullPayload \<noteq> [] then emit (ChangeFull fullPayload) s2 else s2)
                 in (None, set_lastValue e v s3)))
         else (None, set_lastValue e v s1))
      else (None, s))"

text \<open>The callback of \<open>this.entries.forEach\<close> in \<open>realTime()\<close>, then the method.\<close>

definition realTime_entry :: "eid \<Rightarrow> state \<Rightarrow> state" where
  "realTime_entry i s =
     (case deref s (instanceRef (cells s i)) of
        None \<Rightarrow> s
      | Some instance \<Rightarrow>
          (let value = get_prop s instance (prop' (cells s i))
           in set_slot instance (prop' (cells s i)) (Accessor value i) s))"

definition realTime :: "state \<Rightarrow> state" where
  "realTime s =
     (let s1 = s\<lparr>type := TypeRealTime\<rparr>;
          s2 = s1\<lparr>warnings := Suc (warnings s1)\<rparr>;
          s3 = clear s2
      in fold realTime_entry (entries s3) s3)"

text \<open>
  \<open>check()\<close>. \<open>check_entry\<close> is the callback of \<open>this.entries.filter\<close>: it returns
  whether the entry is kept, with the \<open>updates\<close> and the state it leaves.
\<close>

definition check_entry :: "eid \<Rightarrow> val payload \<times> bool \<Rightarrow> state \<Rightarrow> bool \<times> (val payload \<times> bool) \<times> state" where
  "check_entry i updates s =
     (case deref s (instanceRef (cells s i)) of
        None \<Rightarrow> (False, updates, s)
      | Some instance \<Rightarrow>
          (let current = get_prop s instance (prop' (cells s i));
               changed = \<not> strict_eq current (lastValue (cells s i));
               updates' = (if mode s = ModeAll \<or> changed
                           then store_prop (key (cells s i)) current updates else updates);
               s' = (if changed then set_lastValue i current s else s)
           in (True, updates', s')))"

fun check_filter :: "eid list \<Rightarrow> val payload \<times> bool \<Rightarrow> state \<Rightarrow> eid list \<times> (val payload \<times> bool) \<times> state" where
  "check_filter [] updates s = ([], updates, s)"
| "check_filter (i # rest) updates s =
     (case check_entry i updates s of
        (keep, updates', s') \<Rightarrow>
          (case check_filter rest updates' s' of
             (kept, updates'', s'') \<Rightarrow> ((if keep then i # kept else kept), updates'', s'')))"

definition check :: "state \<Rightarrow> state" where
  "check s =
     (case check_filter (entries s) ([], False) s of
        (kept, updates, s') \<Rightarrow>
          (let s'' = s'\<lparr>entries := kept\<rparr>
           in if fst updates \<noteq> [] then emit (Change (fst updates)) s'' else s''))"

text \<open>\<open>unwatch(instance)\<close>\<close>

definition unwatch :: "addr \<Rightarrow> state \<Rightarrow> state" where
  "unwatch instance s =
     s\<lparr>entries := filter
          (\<lambda>i. case deref s (instanceRef (cells s i)) of
                  None \<Rightarrow> False
                | Some inst \<Rightarrow> inst \<noteq> instance)
          (entries s)\<rparr>"

text \<open>The callback given to \<open>new FinalizationRegistry\<close>, called with a held value.\<close>

definition registry_callback :: "string \<Rightarrow> state \<Rightarrow> state" where
  "registry_callback k s = s\<lparr>entries := filter (\<lambda>i. key (cells s i) \<noteq> k) (entries s)\<rparr>"

subsection \<open>The environment\<close>

text \<open>
  \<open>instance[p] = v\<close> in the caller's code: an accessor property runs its setter, any
  other write stores a data property.
\<close>

definition assign :: "addr \<Rightarrow> string \<Rightarrow> val \<Rightarrow> state \<Rightarrow> error option \<times> state" where
  "assign a p v s =
     (case heap s a p of
        Some (Accessor value e) \<Rightarrow> realTime_set a p value e v s
      | _ \<Rightarrow> (None, set_slot a p (Data v) s))"

text \<open>One firing of the timer that \<open>clock\<close> started: nothing fires once it is cleared.\<close>

definition tick :: "state \<Rightarrow> state" where
  "tick s = (if intervalId s \<noteq> None then check s else s)"

text \<open>
  The garbage collector reclaims object \<open>a\<close>; later the runtime calls the registry's
  callback once for each registration of \<open>a\<close>, with the value held for it.
\<close>

definition collect :: "addr \<Rightarrow> state \<Rightarrow> state" where
  "collect a s = s\<lparr>collected := (collected s)(a := True)\<rparr>"

definition finalize :: "addr \<Rightarrow> string \<Rightarrow> state \<Rightarrow> state" where
  "finalize a k s = registry_callback k (s\<lparr>registry := remove1 (a, k) (registry s)\<rparr>)"

text \<open>
  Everything that can happen to an engine: the calls of its public methods, the writes
  of the caller to its objects, the timer and the garbage collector. A live object is
  one the caller can still name, so only live objects are passed or written.
\<close>

datatype action =
    Watch addr watch_arg
  | Unwatch addr
  | StartClock int
  | StartRealTime
  | SelectAll
  | SelectChangedOnly
  | Assign addr string val
  | Tick
  | Collect addr
  | Finalize addr string

fun enabled :: "action \<Rightarrow> state \<Rightarrow> bool" where
  "enabled (Watch a w) s = (\<not> collected s a)"
| "enabled (Unwatch a) s = (\<not> collected s a)"
| "enabled (Assign a p v) s = (\<not> collected s a)"
| "enabled Tick s = (intervalId s \<noteq> None)"
| "enabled (Collect a) s = (\<not> collected s a)"
| "enabled (Finalize a k) s = (collected s a \<and> (a, k) \<in> set (registry s))"
| "enabled _ s = True"

fun step :: "action \<Rightarrow> state \<Rightarrow> state" where
  "step (Watch a w) s = snd (watch a w s)"
| "step (Unwatch a) s = unwatch a s"
| "step (StartClock ms) s = snd (clock ms s)"
| "step StartRealTime s = realTime s"
| "step SelectAll s = all s"
| "step SelectChangedOnly s = changedOnly s"
| "step (Assign a p v) s = snd (assign a p v s)"
| "step Tick s = tick s"
| "step (Collect a) s = collect a s"
| "step (Finalize a k) s = finalize a k s"

fun run :: "action list \<Rightarrow> state \<Rightarrow> state" where
  "run [] s = s"
| "run (a # as) s = run as (step a s)"

inductive reachable :: "state \<Rightarrow> bool" where
  reachable_new: "reachable new_EyeOnProps"
| reachable_step: "reachable s \<Longrightarrow> enabled a s \<Longrightarrow> reachable (step a s)"

text \<open>A sequence of actions that can happen one after the other from \<open>s\<close>.\<close>

fun feasible :: "action list \<Rightarrow> state \<Rightarrow> bool" where
  "feasible [] s = True"
| "feasible (a # as) s = (enabled a s \<and> feasible as (step a s))"

subsection \<open>Version 2.0.0: strong references\<close>

text \<open>
  \<open>src/index.ts\<close> keeps a strong reference \<open>instance\<close> in each entry (the field
  \<open>instanceRef\<close> of the record holds its address), never dereferences a weak one, has
  no \<open>FinalizationRegistry\<close> and no \<open>unwatch\<close>. Its \<open>clock\<close>, \<open>clear\<close>, \<open>all\<close>
  and \<open>changedOnly\<close> are the ones above, word for word. The methods that differ
  follow, with the suffix \<open>_v20\<close>.
\<close>

text \<open>\<open>addEntry(entry)\<close>\<close>

definition addEntry_v20 :: "WatchedEntry \<Rightarrow> state \<Rightarrow> error option \<times> state" where
  "addEntry_v20 entry s =
     (if \<not> has_prop s (instanceRef entry) (prop' entry) then (Some AttributeNotFoundError, s)
      else (None,
        s\<lparr>cells := (cells s)(next_eid s :=
             entry\<lparr>lastValue := get_prop s (instanceRef entry) (prop' entry)\<rparr>),
          next_eid := Suc (next_eid s),
          entries := entries s @ [next_eid s]\<rparr>))"

fun watch_each_v20 :: "addr \<Rightarrow> (string \<times> string option) list \<Rightarrow> state \<Rightarrow> error option \<times> state" where
  "watch_each_v20 instance [] s = (None, s)"
| "watch_each_v20 instance ((p, customKey) # rest) s =
     (case addEntry_v20
             \<lparr>instanceRef = instance, prop' = p, key = resolvedKey customKey p,
              lastValue = get_prop s instance p\<rparr> s of
        (Some err, s') \<Rightarrow> (Some err, s')
      | (None, s') \<Rightarrow> watch_each_v20 instance rest s')"

fun watch_v20 :: "addr \<Rightarrow> watch_arg \<Rightarrow> state \<Rightarrow> error option \<times> state" where
  "watch_v20 instance (Single p k) s =
     addEntry_v20
       \<lparr>instanceRef = instance, prop' = p, key = resolvedKey k p,
        lastValue = get_prop s instance p\<rparr> s"
| "watch_v20 instance (Batch ps) s = watch_each_v20 instance ps s"
| "watch_v20 instance Other s = (Some InvalidRegistrationArgumentsError, s)"

fun buildAllPayload_loop_v20 :: "state \<Rightarrow> eid list \<Rightarrow> val payload \<times> bool \<Rightarrow> val payload \<times> bool" where
  "buildAllPayload_loop_v20 s [] payload = payload"
| "buildAllPayload_loop_v20 s (i # rest) payload =
     buildAllPayload_loop_v20 s rest
       (store_prop (key (cells s i)) (get_prop s (instanceRef (cells s i)) (prop' (cells s i)))
          payload)"

definition buildAllPayload_v20 :: "state \<Rightarrow> val payload" where
  "buildAllPayload_v20 s = fst (buildAllPayload_loop_v20 s (entries s) ([], False))"

fun buildFullAllPayload_loop_v20 :: "state \<Rightarrow> eid list \<Rightarrow> delta payload \<Rightarrow> delta payload" where
  "buildFullAllPayload_loop_v20 s [] payload = payload"
| "buildFullAllPayload_loop_v20 s (i # rest) payload =
     buildFullAllPayload_loop_v20 s rest
       (store_prop_full (key (cells s i))
          (Delta (get_prop s (instanceRef (cells s i)) (prop' (cells s i))) (lastValue (cells s i)))
          payload)"

definition buildFullAllPayload_v20 :: "state \<Rightarrow> error + delta payload" where
  "buildFullAllPayload_v20 s =
     (if mode s \<noteq> ModeAll then Inl InvalidModeOperationError
      else Inr (buildFullAllPayload_loop_v20 s (entries s) []))"

definition realTime_set_v20 :: "addr \<Rightarrow> string \<Rightarrow> val \<Rightarrow> eid \<Rightarrow> val \<Rightarrow> state \<Rightarrow> error option \<times> state" where
  "realTime_set_v20 a p value e v s =
     (if \<not> strict_eq v value then
        (let s1 = set_slot a p (Accessor v e) s in
         if mode s1 \<noteq> ModeUndefined then
           (case (if mode s1 = ModeAll then buildFullAllPayload_v20 s1
                  else Inr (if \<not> strict_eq v (lastValue (cells s1 e))
                            then [(key (cells s1 e), Delta v (lastValue (cells s1 e)))]
                            else [])) of
              Inl err \<Rightarrow> (Some err, s1)
            | Inr fullPayload \<Rightarrow>
                (let payload = (if mode s1 = ModeAll then buildAllPayload_v20 s1
                                else [(key (cells s1 e), v)]);
                     s2 = (if payload \<noteq> [] then emit (Change payload) s1 else s1);
                     s3 = (if fullPayload \<noteq> [] then emit (ChangeFull fullPayload) s2 else s2)
                 in (None, set_lastValue e v s3)))
         else (None, set_lastValue e v s1))
      else (None, s))"

definition realTime_entry_v20 :: "eid \<Rightarrow> state \<Rightarrow> state" where
  "realTime_entry_v20 i s =
     (let value = get_prop s (instanceRef (cells s i)) (prop' (cells s i))
      in set_slot (instanceRef (cells s i)) (prop' (cells s i)) (Accessor value i) s)"

definition realTime_v20 :: "state \<Rightarrow> state" where
  "realTime_v20 s =
     (let s1 = s\<lparr>type := TypeRealTime\<rparr>;
          s2 = s1\<lparr>warnings := Suc (warnings s1)\<rparr>;
          s3 = clear s2
      in fold realTime_entry_v20 (entries s3) s3)"

text \<open>\<open>check()\<close>: the body of the \<open>for\<close> loop, the loop, the method.\<close>

definition check_entry_v20 :: "eid \<Rightarrow> val payload \<times> bool \<Rightarrow> state \<Rightarrow> (val payload \<times> bool) \<times> state" where
  "check_entry_v20 i updates s =
     (let current = get_prop s (instanceRef (cells s i)) (prop' (cells s i));
          changed = \<not> strict_eq current (lastValue (cells s i));
          updates' = (if mode s = ModeAll \<or> changed
                      then store_prop (key (cells s i)) current updates else updates);
          s' = (if changed then set_lastValue i current s else s)
      in (updates', s'))"

fun check_loop_v20 :: "eid list \<Rightarrow> val payload \<times> bool \<Rightarrow> state \<Rightarrow> (val payload \<times> bool) \<times> state" where
  "check_loop_v20 [] updates s = (updates, s)"
| "check_loop_v20 (i # rest) updates s =
     (case check_entry_v20 i updates s of
        (updates', s') \<Rightarrow> check_loop_v20 rest updates' s')"

definition check_v20 :: "state \<Rightarrow> state" where
  "check_v20 s =
     (case check_loop_v20 (entries s) ([], False) s of
        (updates, s') \<Rightarrow>
          if fst updates \<noteq> [] then emit (Change (fst updates)) s' else s')"

definition assign_v20 :: "addr \<Rightarrow> string \<Rightarrow> val \<Rightarrow> state \<Rightarrow> error option \<times> state" where
  "assign_v20 a p v s =
     (case heap s a p of
        Some (Accessor value e) \<Rightarrow> realTime_set_v20 a p value e v s
      | _ \<Rightarrow> (None, set_slot a p (Data v) s))"

definition tick_v20 :: "state \<Rightarrow> state" where
  "tick_v20 s = (if intervalId s \<noteq> None then check_v20 s else s)"

text \<open>
  What can happen to an engine of version 2.0.0: it has no \<open>unwatch\<close>, and the
  objects it watches are never collected, since its entries keep them alive.
\<close>

fun enabled_v20 :: "action \<Rightarrow> state \<Rightarrow> bool" where
  "enabled_v20 (Unwatch a) s = False"
| "enabled_v20 (Collect a) s = False"
| "enabled_v20 (Finalize a k) s = False"
| "enabled_v20 Tick s = (intervalId s \<noteq> None)"
| "enabled_v20 _ s = True"

fun step_v20 :: "action \<Rightarrow> state \<Rightarrow> state" where
  "step_v20 (Watch a w) s = snd (watch_v20 a w s)"
| "step_v20 (StartClock ms) s = snd (clock ms s)"
| "step_v20 StartRealTime s = realTime_v20 s"
| "step_v20 SelectAll s = all s"
| "step_v20 SelectChangedOnly s = changedOnly s"
| "step_v20 (Assign a p v) s = snd (assign_v20 a p v s)"
| "step_v20 Tick s = tick_v20 s"
| "step_v20 _ s = s"

inductive reachable_v20 :: "state \<Rightarrow> bool" where
  reachable_v20_new: "reachable_v20 new_EyeOnProps"
| reachable_v20_step: "reachable_v20 s \<Longrightarrow> enabled_v20 a s \<Longrightarrow> reachable_v20 (step_v20 a s)"

section \<open>Scenarios\<close>

text \<open>
  The example of the specification for polling under \<open>'all'\<close>: an object with
  \<open>a = 1\<close> and \<open>b = 2\<close>, both watched, and \<open>a\<close> set to 3 before the next tick.
\<close>

definition poll_scene :: state where
  "poll_scene = run [Assign 1 ''a'' (VNum 1), Assign 1 ''b'' (VNum 2),
                     Watch 1 (Batch [(''a'', None), (''b'', None)]),
                     SelectAll, StartClock 1000, Assign 1 ''a'' (VNum 3)] new_EyeOnProps"

text \<open>Its example for interception: \<open>watch(obj, "name", "n")\<close>, then \<open>realTime()\<close>.\<close>

definition intercept_scene :: state where
  "intercept_scene = run [Assign 1 ''name'' (VStr ''A''),
                          Watch 1 (Single ''name'' (Some ''n'')), StartRealTime] new_EyeOnProps"

text \<open>
  The same object, written once more between \<open>watch\<close> and \<open>realTime()\<close>: the
  closure starts from the value \<open>'B'\<close> while the entry still caches \<open>'A'\<close>.
\<close>

definition stale_scene :: state where
  "stale_scene = run [Assign 1 ''name'' (VStr ''A''),
                      Watch 1 (Single ''name'' (Some ''n'')),
                      Assign 1 ''name'' (VStr ''B''), StartRealTime] new_EyeOnProps"

text \<open>
  A watched object that the collector has reclaimed while the poll timer runs and
  before the runtime has called the registry's callback.
\<close>

definition collected_scene :: state where
  "collected_scene = run [Assign 1 ''x'' (VNum 1), Watch 1 (Single ''x'' None),
                          StartClock 1000, Collect 1] new_EyeOnProps"

text \<open>Two objects watched for the same property, under the default key.\<close>

definition two_objects_scene :: state where
  "two_objects_scene = run [Assign 1 ''name'' (VStr ''A''), Assign 2 ''name'' (VStr ''B''),
                            Watch 1 (Single ''name'' None), Watch 2 (Single ''name'' None)]
                         new_EyeOnProps"

text \<open>The same, after the first of the two objects has been collected.\<close>

definition same_key_scene :: state where
  "same_key_scene = step (Collect 1) two_objects_scene"

text \<open>
  Two objects polled under \<open>'all'\<close> for the same property, under the default key.
\<close>

definition shared_key_scene :: state where
  "shared_key_scene = run [Assign 1 ''name'' (VStr ''A''), Assign 2 ''name'' (VStr ''B''),
                           Watch 1 (Single ''name'' None), Watch 2 (Single ''name'' None),
                           SelectAll, StartClock 1000] new_EyeOnProps"

text \<open>
  \<open>watch(obj, "x", "__proto__")\<close>, polling, and \<open>x\<close> set from 1 to 2 before the tick.
\<close>

definition proto_key_scene :: state where
  "proto_key_scene = run [Assign 1 ''x'' (VNum 1), Watch 1 (Single ''x'' (Some ''__proto__'')),
                          StartClock 1000, Assign 1 ''x'' (VNum 2)] new_EyeOnProps"

text \<open>
  The example of the specification for polling under \<open>'changed'\<close>, which is the
  mode when nothing selects another: the calls of \<open>poll_scene\<close> without \<open>all()\<close>.
\<close>

definition fresh_poll_acts :: "action list" where
  "fresh_poll_acts = [Assign 1 ''a'' (VNum 1), Assign 1 ''b'' (VNum 2),
                      Watch 1 (Batch [(''a'', None), (''b'', None)]),
                      StartClock 1000, Assign 1 ''a'' (VNum 3)]"

section \<open>Vocabulary of the properties\<close>

text \<open>
  What a detection pass looks at, for the entry object \<open>i\<close> in state \<open>s\<close>: whether its
  target is still there, the value its property has now, and whether that value is
  strictly different from the cached one.
\<close>

abbreviation live :: "state \<Rightarrow> eid \<Rightarrow> bool" where
  "live s i \<equiv> \<not> collected s (instanceRef (cells s i))"

abbreviation current :: "state \<Rightarrow> eid \<Rightarrow> val" where
  "current s i \<equiv> get_prop s (instanceRef (cells s i)) (prop' (cells s i))"

abbreviation changed :: "state \<Rightarrow> eid \<Rightarrow> bool" where
  "changed s i \<equiv> \<not> strict_eq (current s i) (lastValue (cells s i))"

text \<open>The entries a poll tick puts into its payload, in version 2.1.0 and in 2.0.0.\<close>

abbreviation reported :: "state \<Rightarrow> eid \<Rightarrow> bool" where
  "reported s i \<equiv> live s i \<and> (mode s = ModeAll \<or> changed s i)"

abbreviation reported_v20 :: "state \<Rightarrow> eid \<Rightarrow> bool" where
  "reported_v20 s i \<equiv> mode s = ModeAll \<or> changed s i"

text \<open>
  The last of the entries with display key \<open>k\<close> that a poll tick reports, in the
  order of the \<open>entries\<close> array.
\<close>

abbreviation last_reported :: "state \<Rightarrow> string \<Rightarrow> eid option" where
  "last_reported s k \<equiv>
     List.find (\<lambda>i. reported s i \<and> key (cells s i) = k) (rev (entries s))"

abbreviation last_reported_v20 :: "state \<Rightarrow> string \<Rightarrow> eid option" where
  "last_reported_v20 s k \<equiv>
     List.find (\<lambda>i. reported_v20 s i \<and> key (cells s i) = k) (rev (entries s))"

text \<open>
  The own properties of the \<open>updates\<close> object that \<open>check()\<close> has built when its
  loop ends.
\<close>

definition poll_payload :: "state \<Rightarrow> val payload" where
  "poll_payload s = fst (fst (snd (check_filter (entries s) ([], False) s)))"

definition poll_payload_v20 :: "state \<Rightarrow> val payload" where
  "poll_payload_v20 s = fst (fst (check_loop_v20 (entries s) ([], False) s))"

text \<open>
  Closed forms of the two loops of \<open>check()\<close>, used in the proofs: \<open>upd_if\<close> is one
  conditional store into a payload, \<open>gather\<close> the payload after the entries \<open>is\<close>, and
  \<open>restamp\<close> the state once the changed entries among \<open>is\<close> have a new \<open>lastValue\<close>.
\<close>

definition upd_if :: "('i \<Rightarrow> bool) \<Rightarrow> ('i \<Rightarrow> string) \<Rightarrow> ('i \<Rightarrow> val) \<Rightarrow> 'i \<Rightarrow> val payload \<times> bool \<Rightarrow> val payload \<times> bool" where
  "upd_if P k c i u = (if P i then store_prop (k i) (c i) u else u)"

definition gather :: "state \<Rightarrow> eid list \<Rightarrow> val payload \<times> bool \<Rightarrow> val payload \<times> bool" where
  "gather s is u = fold (upd_if (reported s) (\<lambda>i. key (cells s i)) (current s)) is u"

definition restamp :: "state \<Rightarrow> eid list \<Rightarrow> state" where
  "restamp s is =
     s\<lparr>cells := (\<lambda>j. if j \<in> set is \<and> live s j \<and> changed s j
                      then (cells s j)\<lparr>lastValue := current s j\<rparr> else cells s j)\<rparr>"

definition gather_v20 :: "state \<Rightarrow> eid list \<Rightarrow> val payload \<times> bool \<Rightarrow> val payload \<times> bool" where
  "gather_v20 s is u = fold (upd_if (reported_v20 s) (\<lambda>i. key (cells s i)) (current s)) is u"

definition restamp_v20 :: "state \<Rightarrow> eid list \<Rightarrow> state" where
  "restamp_v20 s is =
     s\<lparr>cells := (\<lambda>j. if j \<in> set is \<and> changed s j
                      then (cells s j)\<lparr>lastValue := current s j\<rparr> else cells s j)\<rparr>"

text \<open>
  The \<open>entries\<close> array holds each entry object once, and only objects that exist:
  \<open>addEntry\<close> pushes a fresh object, and nothing else adds to the array.
\<close>

definition entries_ok :: "state \<Rightarrow> bool" where
  "entries_ok s = (distinct (entries s) \<and> (\<forall>i\<in>set (entries s). i < next_eid s))"

section \<open>Properties\<close>

subsection \<open>Frame lemmas\<close>

lemma clear_simps [simp]:
  "entries (clear s) = entries s" "mode (clear s) = mode s" "type (clear s) = type s"
  "cells (clear s) = cells s" "heap (clear s) = heap s" "collected (clear s) = collected s"
  "emitted (clear s) = emitted s" "intervalId (clear s) = None"
  "next_eid (clear s) = next_eid s" "registry (clear s) = registry s"
  "warnings (clear s) = warnings s"
  by (simp_all add: clear_def)

lemma set_slot_simps [simp]:
  "entries (set_slot a p sl s) = entries s" "mode (set_slot a p sl s) = mode s"
  "type (set_slot a p sl s) = type s" "cells (set_slot a p sl s) = cells s"
  "collected (set_slot a p sl s) = collected s" "emitted (set_slot a p sl s) = emitted s"
  "intervalId (set_slot a p sl s) = intervalId s" "next_eid (set_slot a p sl s) = next_eid s"
  "registry (set_slot a p sl s) = registry s" "warnings (set_slot a p sl s) = warnings s"
  "heap (set_slot a p sl s) = (heap s)(a := (heap s a)(p \<mapsto> sl))"
  by (simp_all add: set_slot_def)

lemma set_lastValue_simps [simp]:
  "entries (set_lastValue i v s) = entries s" "mode (set_lastValue i v s) = mode s"
  "type (set_lastValue i v s) = type s" "heap (set_lastValue i v s) = heap s"
  "collected (set_lastValue i v s) = collected s" "emitted (set_lastValue i v s) = emitted s"
  "intervalId (set_lastValue i v s) = intervalId s" "next_eid (set_lastValue i v s) = next_eid s"
  "registry (set_lastValue i v s) = registry s" "warnings (set_lastValue i v s) = warnings s"
  "cells (set_lastValue i v s) = (cells s)(i := (cells s i)\<lparr>lastValue := v\<rparr>)"
  by (simp_all add: set_lastValue_def)

lemma emit_simps [simp]:
  "entries (emit ev s) = entries s" "mode (emit ev s) = mode s"
  "type (emit ev s) = type s" "heap (emit ev s) = heap s" "cells (emit ev s) = cells s"
  "collected (emit ev s) = collected s" "emitted (emit ev s) = emitted s @ [ev]"
  "intervalId (emit ev s) = intervalId s" "next_eid (emit ev s) = next_eid s"
  "registry (emit ev s) = registry s" "warnings (emit ev s) = warnings s"
  by (simp_all add: emit_def)

lemma get_prop_simps [simp]:
  "get_prop (set_lastValue i v s) = get_prop s" "get_prop (emit ev s) = get_prop s"
  by (simp_all add: get_prop_def fun_eq_iff)

lemma deref_simps [simp]:
  "deref (set_lastValue i v s) = deref s" "deref (emit ev s) = deref s"
  "deref (set_slot a p sl s) = deref s"
  by (simp_all add: deref_def fun_eq_iff)

lemma realTime_entry_frame [simp]:
  "entries (realTime_entry i s) = entries s" "mode (realTime_entry i s) = mode s"
  "type (realTime_entry i s) = type s" "cells (realTime_entry i s) = cells s"
  "collected (realTime_entry i s) = collected s" "emitted (realTime_entry i s) = emitted s"
  "intervalId (realTime_entry i s) = intervalId s" "next_eid (realTime_entry i s) = next_eid s"
  "registry (realTime_entry i s) = registry s" "warnings (realTime_entry i s) = warnings s"
  by (simp_all add: realTime_entry_def Let_def split: option.splits)

lemma fold_realTime_entry_frame [simp]:
  "entries (fold realTime_entry is s) = entries s" "mode (fold realTime_entry is s) = mode s"
  "type (fold realTime_entry is s) = type s" "cells (fold realTime_entry is s) = cells s"
  "collected (fold realTime_entry is s) = collected s" "emitted (fold realTime_entry is s) = emitted s"
  "intervalId (fold realTime_entry is s) = intervalId s" "next_eid (fold realTime_entry is s) = next_eid s"
  "registry (fold realTime_entry is s) = registry s" "warnings (fold realTime_entry is s) = warnings s"
  by (induction "is" arbitrary: s; simp)+

lemma realTime_frame [simp]:
  "entries (realTime s) = entries s" "mode (realTime s) = mode s"
  "type (realTime s) = TypeRealTime" "cells (realTime s) = cells s"
  "collected (realTime s) = collected s" "emitted (realTime s) = emitted s"
  "intervalId (realTime s) = None" "next_eid (realTime s) = next_eid s"
  "registry (realTime s) = registry s" "warnings (realTime s) = Suc (warnings s)"
  by (simp_all add: realTime_def Let_def)

lemma realTime_entry_v20_frame [simp]:
  "entries (realTime_entry_v20 i s) = entries s" "mode (realTime_entry_v20 i s) = mode s"
  "type (realTime_entry_v20 i s) = type s" "cells (realTime_entry_v20 i s) = cells s"
  "collected (realTime_entry_v20 i s) = collected s" "emitted (realTime_entry_v20 i s) = emitted s"
  "intervalId (realTime_entry_v20 i s) = intervalId s" "next_eid (realTime_entry_v20 i s) = next_eid s"
  "registry (realTime_entry_v20 i s) = registry s" "warnings (realTime_entry_v20 i s) = warnings s"
  by (simp_all add: realTime_entry_v20_def Let_def)

lemma fold_realTime_entry_v20_frame [simp]:
  "entries (fold realTime_entry_v20 is s) = entries s" "mode (fold realTime_entry_v20 is s) = mode s"
  "type (fold realTime_entry_v20 is s) = type s" "cells (fold realTime_entry_v20 is s) = cells s"
  "collected (fold realTime_entry_v20 is s) = collected s" "emitted (fold realTime_entry_v20 is s) = emitted s"
  "intervalId (fold realTime_entry_v20 is s) = intervalId s" "next_eid (fold realTime_entry_v20 is s) = next_eid s"
  "registry (fold realTime_entry_v20 is s) = registry s" "warnings (fold realTime_entry_v20 is s) = warnings s"
  by (induction "is" arbitrary: s; simp)+

lemma realTime_v20_frame [simp]:
  "entries (realTime_v20 s) = entries s" "mode (realTime_v20 s) = mode s"
  "type (realTime_v20 s) = TypeRealTime" "cells (realTime_v20 s) = cells s"
  "collected (realTime_v20 s) = collected s" "emitted (realTime_v20 s) = emitted s"
  "intervalId (realTime_v20 s) = None" "next_eid (realTime_v20 s) = next_eid s"
  "registry (realTime_v20 s) = registry s" "warnings (realTime_v20 s) = Suc (warnings s)"
  by (simp_all add: realTime_v20_def Let_def)

subsection \<open>Payloads built by conditional stores\<close>

lemma find_snoc:
  "List.find Q (xs @ [y]) =
     (case List.find Q xs of None \<Rightarrow> (if Q y then Some y else None) | Some x \<Rightarrow> Some x)"
  by (induction xs) simp_all

lemma store_prop_lookup:
  "x \<noteq> ''__proto__'' \<Longrightarrow>
   map_of (fst (store_prop k v obj)) x = (if k = x then Some v else map_of (fst obj) x)"
  by (cases obj) (auto simp: store_prop_def update_conv')

lemma fold_upd_find:
  "x \<noteq> ''__proto__'' \<Longrightarrow>
   map_of (fst (fold (upd_if P k c) is obj)) x =
     (case List.find (\<lambda>i. P i \<and> k i = x) (rev is) of
        None \<Rightarrow> map_of (fst obj) x
      | Some i \<Rightarrow> Some (c i))"
proof (induction "is" arbitrary: obj)
  case Nil
  show ?case by simp
next
  case (Cons i rest)
  have step: "map_of (fst (upd_if P k c i obj)) x =
      (if P i \<and> k i = x then Some (c i) else map_of (fst obj) x)"
    using Cons.prems by (simp add: upd_if_def store_prop_lookup)
  show ?case
    using Cons.IH [OF Cons.prems, of "upd_if P k c i obj"] step
    by (simp add: find_snoc split: option.splits)
qed

lemma fold_upd_keys:
  assumes "x \<noteq> ''__proto__''"
  shows "x \<in> fst ` set (fst (fold (upd_if P k c) is ([], False))) \<longleftrightarrow>
         (\<exists>i\<in>set is. P i \<and> k i = x)"
proof -
  have "x \<in> fst ` set (fst (fold (upd_if P k c) is ([], False))) \<longleftrightarrow>
        map_of (fst (fold (upd_if P k c) is ([], False))) x \<noteq> None"
    by (simp add: map_of_eq_None_iff)
  also have "\<dots> \<longleftrightarrow> List.find (\<lambda>i. P i \<and> k i = x) (rev is) \<noteq> None"
    by (simp add: fold_upd_find [OF assms] split: option.splits)
  also have "\<dots> \<longleftrightarrow> (\<exists>i\<in>set is. P i \<and> k i = x)"
    by (auto simp: find_None_iff)
  finally show ?thesis .
qed

subsection \<open>The loop of the poll tick\<close>

lemma get_prop_update [simp]:
  "get_prop (s\<lparr>cells := c\<rparr>) = get_prop s" "get_prop (s\<lparr>entries := es\<rparr>) = get_prop s"
  "get_prop (s\<lparr>emitted := evs\<rparr>) = get_prop s" "get_prop (s\<lparr>collected := g\<rparr>) = get_prop s"
  "get_prop (s\<lparr>registry := r\<rparr>) = get_prop s"
  by (simp_all add: get_prop_def fun_eq_iff)

lemma check_entry_eq:
  "check_entry i u s =
     (live s i,
      (if reported s i then store_prop (key (cells s i)) (current s i) u else u),
      (if live s i \<and> changed s i then set_lastValue i (current s i) s else s))"
  by (simp add: check_entry_def deref_def Let_def)

lemma check_filter_char:
  "distinct is \<Longrightarrow>
   check_filter is u s = (filter (live s) is, gather s is u, restamp s is)"
proof (induction "is" arbitrary: u s)
  case Nil
  show ?case by (simp add: gather_def restamp_def)
next
  case (Cons i rest)
  let ?s' = "if live s i \<and> changed s i then set_lastValue i (current s i) s else s"
  let ?u' = "if reported s i then store_prop (key (cells s i)) (current s i) u else u"
  have fresh: "i \<notin> set rest" and dist: "distinct rest" using Cons.prems by simp_all
  have same: "\<And>j. j \<in> set rest \<Longrightarrow> cells ?s' j = cells s j"
    using fresh by auto
  have live': "\<And>j. live ?s' j = live s j" by simp
  have cur': "\<And>j. current ?s' j = current s j" by simp
  have chg': "\<And>j. j \<in> set rest \<Longrightarrow> changed ?s' j = changed s j"
    using same cur' by simp
  have key': "\<And>j. key (cells ?s' j) = key (cells s j)" by simp
  have mode': "mode ?s' = mode s" by simp
  have f: "filter (live ?s') rest = filter (live s) rest"
    using live' by simp
  have g: "gather ?s' rest ?u' = gather s (i # rest) u"
  proof -
    have "fold (upd_if (reported ?s') (\<lambda>i. key (cells ?s' i)) (current ?s')) rest ?u'
        = fold (upd_if (reported s) (\<lambda>i. key (cells s i)) (current s)) rest ?u'"
      by (rule fold_cong) (use same in \<open>auto simp: fun_eq_iff upd_if_def\<close>)
    then show ?thesis by (simp add: gather_def upd_if_def)
  qed
  have r: "restamp ?s' rest = restamp s (i # rest)"
    using fresh by (intro state.equality) (auto simp: restamp_def set_lastValue_def fun_eq_iff)
  show ?case
    using Cons.IH [OF dist, of ?u' ?s'] f g r
    by (simp add: check_entry_eq)
qed


lemma check_filter_frame:
  "check_filter is u s = (kept, u', s') \<Longrightarrow>
     kept = filter (live s) is \<and> heap s' = heap s \<and> collected s' = collected s \<and>
     mode s' = mode s \<and> type s' = type s \<and> emitted s' = emitted s \<and>
     intervalId s' = intervalId s \<and> registry s' = registry s \<and> warnings s' = warnings s \<and>
     next_eid s' = next_eid s \<and> entries s' = entries s \<and>
     (\<forall>j. cells s' j = (cells s j)\<lparr>lastValue := lastValue (cells s' j)\<rparr>)"
proof (induction "is" arbitrary: u s kept u' s')
  case Nil
  then show ?case by simp
next
  case (Cons i rest)
  let ?s1 = "if live s i \<and> changed s i then set_lastValue i (current s i) s else s"
  let ?u1 = "if reported s i then store_prop (key (cells s i)) (current s i) u else u"
  obtain k2 u2 s2 where rest: "check_filter rest ?u1 ?s1 = (k2, u2, s2)"
    by (metis prod_cases3)
  from Cons.prems rest have out: "kept = (if live s i then i # k2 else k2)" "u' = u2" "s' = s2"
    by (simp_all add: check_entry_eq)
  note ih = Cons.IH [OF rest]
  have one: "\<And>j. cells ?s1 j = (cells s j)\<lparr>lastValue := lastValue (cells ?s1 j)\<rparr>"
    by simp
  have "\<And>j. cells s2 j = (cells s j)\<lparr>lastValue := lastValue (cells s2 j)\<rparr>"
  proof -
    fix j
    have "cells s2 j = (cells ?s1 j)\<lparr>lastValue := lastValue (cells s2 j)\<rparr>" using ih by blast
    also have "\<dots> = (cells s j)\<lparr>lastValue := lastValue (cells s2 j)\<rparr>"
      by (subst one) simp
    finally show "cells s2 j = (cells s j)\<lparr>lastValue := lastValue (cells s2 j)\<rparr>" .
  qed
  moreover have "filter (live ?s1) rest = filter (live s) rest"
    by (rule filter_cong [OF refl]) auto
  ultimately show ?case using ih out by simp
qed


lemma check_entry_v20_eq:
  "check_entry_v20 i u s =
     ((if reported_v20 s i then store_prop (key (cells s i)) (current s i) u else u),
      (if changed s i then set_lastValue i (current s i) s else s))"
  by (simp add: check_entry_v20_def Let_def)

lemma check_loop_v20_char:
  "distinct is \<Longrightarrow> check_loop_v20 is u s = (gather_v20 s is u, restamp_v20 s is)"
proof (induction "is" arbitrary: u s)
  case Nil
  show ?case by (simp add: gather_v20_def restamp_v20_def)
next
  case (Cons i rest)
  let ?s' = "if changed s i then set_lastValue i (current s i) s else s"
  let ?u' = "if reported_v20 s i then store_prop (key (cells s i)) (current s i) u else u"
  have fresh: "i \<notin> set rest" and dist: "distinct rest" using Cons.prems by simp_all
  have same: "\<And>j. j \<in> set rest \<Longrightarrow> cells ?s' j = cells s j"
    using fresh by auto
  have g: "gather_v20 ?s' rest ?u' = gather_v20 s (i # rest) u"
  proof -
    have "fold (upd_if (reported_v20 ?s') (\<lambda>i. key (cells ?s' i)) (current ?s')) rest ?u'
        = fold (upd_if (reported_v20 s) (\<lambda>i. key (cells s i)) (current s)) rest ?u'"
      by (rule fold_cong) (use same in \<open>auto simp: fun_eq_iff upd_if_def\<close>)
    then show ?thesis by (simp add: gather_v20_def upd_if_def)
  qed
  have r: "restamp_v20 ?s' rest = restamp_v20 s (i # rest)"
    using fresh by (intro state.equality) (auto simp: restamp_v20_def set_lastValue_def fun_eq_iff)
  show ?case
    using Cons.IH [OF dist, of ?u' ?s'] g r
    by (simp add: check_entry_v20_eq)
qed

lemma check_loop_v20_frame:
  "check_loop_v20 is u s = (u', s') \<Longrightarrow>
     heap s' = heap s \<and> collected s' = collected s \<and>
     mode s' = mode s \<and> type s' = type s \<and> emitted s' = emitted s \<and>
     intervalId s' = intervalId s \<and> registry s' = registry s \<and> warnings s' = warnings s \<and>
     next_eid s' = next_eid s \<and> entries s' = entries s \<and>
     (\<forall>j. cells s' j = (cells s j)\<lparr>lastValue := lastValue (cells s' j)\<rparr>)"
proof (induction "is" arbitrary: u s u' s')
  case Nil
  then show ?case by simp
next
  case (Cons i rest)
  let ?s1 = "if changed s i then set_lastValue i (current s i) s else s"
  let ?u1 = "if reported_v20 s i then store_prop (key (cells s i)) (current s i) u else u"
  from Cons.prems have rest: "check_loop_v20 rest ?u1 ?s1 = (u', s')"
    by (simp add: check_entry_v20_eq)
  note ih = Cons.IH [OF rest]
  have one: "\<And>j. cells ?s1 j = (cells s j)\<lparr>lastValue := lastValue (cells ?s1 j)\<rparr>"
    by simp
  have "\<And>j. cells s' j = (cells s j)\<lparr>lastValue := lastValue (cells s' j)\<rparr>"
  proof -
    fix j
    have "cells s' j = (cells ?s1 j)\<lparr>lastValue := lastValue (cells s' j)\<rparr>" using ih by blast
    also have "\<dots> = (cells s j)\<lparr>lastValue := lastValue (cells s' j)\<rparr>"
      by (subst one) simp
    finally show "cells s' j = (cells s j)\<lparr>lastValue := lastValue (cells s' j)\<rparr>" .
  qed
  then show ?case using ih by simp
qed

subsection \<open>The poll tick as a whole\<close>

lemma check_emitted:
  "emitted (check s) = emitted s @ (if poll_payload s = [] then [] else [Change (poll_payload s)])"
proof -
  obtain kept u s' where r: "check_filter (entries s) ([], False) s = (kept, u, s')"
    by (metis prod_cases3)
  from check_filter_frame [OF r] have "emitted s' = emitted s" by simp
  with r show ?thesis by (simp add: check_def poll_payload_def Let_def)
qed

lemma check_entries: "entries (check s) = filter (live s) (entries s)"
proof -
  obtain kept u s' where r: "check_filter (entries s) ([], False) s = (kept, u, s')"
    by (metis prod_cases3)
  from check_filter_frame [OF r] have "kept = filter (live s) (entries s)" by simp
  with r show ?thesis by (simp add: check_def Let_def)
qed

lemma check_frame:
  "heap (check s) = heap s" "collected (check s) = collected s" "mode (check s) = mode s"
  "type (check s) = type s" "intervalId (check s) = intervalId s" "registry (check s) = registry s"
  "warnings (check s) = warnings s" "next_eid (check s) = next_eid s"
proof -
  obtain kept u s' where r: "check_filter (entries s) ([], False) s = (kept, u, s')"
    by (metis prod_cases3)
  note f = check_filter_frame [OF r]
  show "heap (check s) = heap s" "collected (check s) = collected s" "mode (check s) = mode s"
    "type (check s) = type s" "intervalId (check s) = intervalId s" "registry (check s) = registry s"
    "warnings (check s) = warnings s" "next_eid (check s) = next_eid s"
    using r f by (simp_all add: check_def Let_def)
qed

lemma check_cells_fields:
  "cells (check s) j = (cells s j)\<lparr>lastValue := lastValue (cells (check s) j)\<rparr>"
proof -
  obtain kept u s' where r: "check_filter (entries s) ([], False) s = (kept, u, s')"
    by (metis prod_cases3)
  from check_filter_frame [OF r]
  have "cells s' j = (cells s j)\<lparr>lastValue := lastValue (cells s' j)\<rparr>" by blast
  moreover have "cells (check s) = cells s'" using r by (simp add: check_def Let_def)
  ultimately show ?thesis by simp
qed

lemma check_cells:
  "distinct (entries s) \<Longrightarrow>
   cells (check s) j = (if j \<in> set (entries s) \<and> live s j \<and> changed s j
                        then (cells s j)\<lparr>lastValue := current s j\<rparr> else cells s j)"
  by (simp add: check_def check_filter_char restamp_def Let_def)

lemma poll_payload_gather:
  "distinct (entries s) \<Longrightarrow> poll_payload s = fst (gather s (entries s) ([], False))"
  by (simp add: poll_payload_def check_filter_char)


lemma check_v20_emitted:
  "emitted (check_v20 s) =
     emitted s @ (if poll_payload_v20 s = [] then [] else [Change (poll_payload_v20 s)])"
proof -
  obtain u s' where r: "check_loop_v20 (entries s) ([], False) s = (u, s')"
    by (metis surj_pair)
  from check_loop_v20_frame [OF r] have "emitted s' = emitted s" by simp
  with r show ?thesis by (simp add: check_v20_def poll_payload_v20_def)
qed

lemma check_v20_frame:
  "entries (check_v20 s) = entries s"
  "heap (check_v20 s) = heap s" "collected (check_v20 s) = collected s" "mode (check_v20 s) = mode s"
  "type (check_v20 s) = type s" "intervalId (check_v20 s) = intervalId s"
  "registry (check_v20 s) = registry s"
  "warnings (check_v20 s) = warnings s" "next_eid (check_v20 s) = next_eid s"
proof -
  obtain u s' where r: "check_loop_v20 (entries s) ([], False) s = (u, s')"
    by (metis surj_pair)
  note f = check_loop_v20_frame [OF r]
  show "entries (check_v20 s) = entries s"
    "heap (check_v20 s) = heap s" "collected (check_v20 s) = collected s" "mode (check_v20 s) = mode s"
    "type (check_v20 s) = type s" "intervalId (check_v20 s) = intervalId s"
    "registry (check_v20 s) = registry s"
    "warnings (check_v20 s) = warnings s" "next_eid (check_v20 s) = next_eid s"
    using r f by (simp_all add: check_v20_def)
qed

lemma check_v20_cells_fields:
  "cells (check_v20 s) j = (cells s j)\<lparr>lastValue := lastValue (cells (check_v20 s) j)\<rparr>"
proof -
  obtain u s' where r: "check_loop_v20 (entries s) ([], False) s = (u, s')"
    by (metis surj_pair)
  from check_loop_v20_frame [OF r]
  have "cells s' j = (cells s j)\<lparr>lastValue := lastValue (cells s' j)\<rparr>" by blast
  moreover have "cells (check_v20 s) = cells s'" using r by (simp add: check_v20_def)
  ultimately show ?thesis by simp
qed

lemma check_v20_cells:
  "distinct (entries s) \<Longrightarrow>
   cells (check_v20 s) j = (if j \<in> set (entries s) \<and> changed s j
                            then (cells s j)\<lparr>lastValue := current s j\<rparr> else cells s j)"
  by (simp add: check_v20_def check_loop_v20_char restamp_v20_def)

lemma poll_payload_v20_gather:
  "distinct (entries s) \<Longrightarrow> poll_payload_v20 s = fst (gather_v20 s (entries s) ([], False))"
  by (simp add: poll_payload_v20_def check_loop_v20_char)

lemma poll_payload_lookup:
  assumes "distinct (entries s)" and "k \<noteq> ''__proto__''"
  shows "map_of (poll_payload s) k = map_option (current s) (last_reported s k)"
    and "map_of (poll_payload_v20 s) k = map_option (current s) (last_reported_v20 s k)"
proof -
  have "map_of (poll_payload s) k =
      (case last_reported s k of None \<Rightarrow> map_of (fst ([], False)) k | Some i \<Rightarrow> Some (current s i))"
    unfolding poll_payload_gather [OF assms(1)] gather_def
    by (rule fold_upd_find [OF assms(2)])
  then show "map_of (poll_payload s) k = map_option (current s) (last_reported s k)"
    by (cases "last_reported s k") simp_all
  have "map_of (poll_payload_v20 s) k =
      (case last_reported_v20 s k of None \<Rightarrow> map_of (fst ([], False)) k
       | Some i \<Rightarrow> Some (current s i))"
    unfolding poll_payload_v20_gather [OF assms(1)] gather_v20_def
    by (rule fold_upd_find [OF assms(2)])
  then show "map_of (poll_payload_v20 s) k = map_option (current s) (last_reported_v20 s k)"
    by (cases "last_reported_v20 s k") simp_all
qed

lemma poll_payload_keys:
  assumes "distinct (entries s)"
  shows "fst ` set (poll_payload s) - {''__proto__''} =
           (\<lambda>i. key (cells s i)) ` {i \<in> set (entries s). reported s i} - {''__proto__''}"
    and "fst ` set (poll_payload_v20 s) - {''__proto__''} =
           (\<lambda>i. key (cells s i)) ` {i \<in> set (entries s). reported_v20 s i} - {''__proto__''}"
proof -
  have a: "x \<in> fst ` set (poll_payload s) \<longleftrightarrow>
      (\<exists>i\<in>set (entries s). reported s i \<and> key (cells s i) = x)" if "x \<noteq> ''__proto__''" for x
    unfolding poll_payload_gather [OF assms] gather_def
    by (rule fold_upd_keys [OF that])
  show "fst ` set (poll_payload s) - {''__proto__''} =
           (\<lambda>i. key (cells s i)) ` {i \<in> set (entries s). reported s i} - {''__proto__''}"
  proof (rule set_eqI)
    fix x
    show "x \<in> fst ` set (poll_payload s) - {''__proto__''} \<longleftrightarrow>
          x \<in> (\<lambda>i. key (cells s i)) ` {i \<in> set (entries s). reported s i} - {''__proto__''}"
    proof (cases "x = ''__proto__''")
      case True
      then show ?thesis by simp
    next
      case False
      have "x \<in> (\<lambda>i. key (cells s i)) ` {i \<in> set (entries s). reported s i} \<longleftrightarrow>
            (\<exists>i\<in>set (entries s). reported s i \<and> key (cells s i) = x)"
        by blast
      then show ?thesis using a [OF False] False by simp
    qed
  qed
  have b: "x \<in> fst ` set (poll_payload_v20 s) \<longleftrightarrow>
      (\<exists>i\<in>set (entries s). reported_v20 s i \<and> key (cells s i) = x)" if "x \<noteq> ''__proto__''" for x
    unfolding poll_payload_v20_gather [OF assms] gather_v20_def
    by (rule fold_upd_keys [OF that])
  show "fst ` set (poll_payload_v20 s) - {''__proto__''} =
           (\<lambda>i. key (cells s i)) ` {i \<in> set (entries s). reported_v20 s i} - {''__proto__''}"
  proof (rule set_eqI)
    fix x
    show "x \<in> fst ` set (poll_payload_v20 s) - {''__proto__''} \<longleftrightarrow>
          x \<in> (\<lambda>i. key (cells s i)) ` {i \<in> set (entries s). reported_v20 s i} - {''__proto__''}"
    proof (cases "x = ''__proto__''")
      case True
      then show ?thesis by simp
    next
      case False
      have "x \<in> (\<lambda>i. key (cells s i)) ` {i \<in> set (entries s). reported_v20 s i} \<longleftrightarrow>
            (\<exists>i\<in>set (entries s). reported_v20 s i \<and> key (cells s i) = x)"
        by blast
      then show ?thesis using b [OF False] False by simp
    qed
  qed
qed

subsection \<open>Evaluation, the setter, and what every step preserves\<close>

lemmas eval_defs = new_EyeOnProps_def store_prop_def store_prop_full_def assign_def set_slot_def addEntry_def has_prop_def get_prop_def
  resolvedKey_def clock_def clear_def all_def changedOnly_def realTime_def realTime_entry_def
  deref_def collect_def unwatch_def registry_callback_def finalize_def tick_def check_def
  check_entry_def set_lastValue_def emit_def strict_eq_def realTime_set_def
  buildAllPayload_def buildFullAllPayload_def Let_def

lemmas eval_defs_v20 = addEntry_v20_def assign_v20_def realTime_v20_def realTime_entry_v20_def
  tick_v20_def check_v20_def check_entry_v20_def realTime_set_v20_def
  buildAllPayload_v20_def buildFullAllPayload_v20_def

lemma reachable_run: "reachable s \<Longrightarrow> feasible as s \<Longrightarrow> reachable (run as s)"
  by (induction as arbitrary: s) (auto intro: reachable_step)

lemma realTime_set_same:
  "strict_eq v value \<Longrightarrow> realTime_set a p value e v s = (None, s)"
  "strict_eq v value \<Longrightarrow> realTime_set_v20 a p value e v s = (None, s)"
  by (simp_all add: realTime_set_def realTime_set_v20_def)

lemma realTime_set_changedOnly:
  assumes "mode s = ModeChanged" and "\<not> strict_eq v value"
  shows "realTime_set a p value e v s =
     (None, set_lastValue e v
        ((if strict_eq v (lastValue (cells s e)) then (\<lambda>x. x)
          else emit (ChangeFull [(key (cells s e), Delta v (lastValue (cells s e)))]))
           (emit (Change [(key (cells s e), v)]) (set_slot a p (Accessor v e) s))))"
    and "realTime_set_v20 a p value e v s = realTime_set a p value e v s"
  using assms by (simp_all add: realTime_set_def realTime_set_v20_def Let_def)

lemma realTime_set_frame:
  "realTime_set a p value e v s = (r, s') \<Longrightarrow>
     r = None \<and> entries s' = entries s \<and> next_eid s' = next_eid s \<and> mode s' = mode s \<and>
     type s' = type s \<and> collected s' = collected s \<and> intervalId s' = intervalId s \<and>
     registry s' = registry s \<and> warnings s' = warnings s \<and>
     (\<forall>j. cells s' j = (cells s j)\<lparr>lastValue := lastValue (cells s' j)\<rparr>)"
  by (auto simp: realTime_set_def buildFullAllPayload_def Let_def split: if_splits)

lemma realTime_set_v20_frame:
  "realTime_set_v20 a p value e v s = (r, s') \<Longrightarrow>
     r = None \<and> entries s' = entries s \<and> next_eid s' = next_eid s \<and> mode s' = mode s \<and>
     type s' = type s \<and> collected s' = collected s \<and> intervalId s' = intervalId s \<and>
     registry s' = registry s \<and> warnings s' = warnings s \<and>
     (\<forall>j. cells s' j = (cells s j)\<lparr>lastValue := lastValue (cells s' j)\<rparr>)"
  by (auto simp: realTime_set_v20_def buildFullAllPayload_v20_def Let_def split: if_splits)

lemma assign_frame:
  "assign a p v s = (r, s') \<Longrightarrow>
     r = None \<and> entries s' = entries s \<and> next_eid s' = next_eid s \<and> mode s' = mode s \<and>
     type s' = type s \<and> collected s' = collected s \<and> intervalId s' = intervalId s \<and>
     registry s' = registry s \<and> warnings s' = warnings s \<and>
     (\<forall>j. cells s' j = (cells s j)\<lparr>lastValue := lastValue (cells s' j)\<rparr>)"
  unfolding assign_def
  by (auto split: option.splits slot.splits dest: realTime_set_frame)

lemma assign_v20_frame:
  "assign_v20 a p v s = (r, s') \<Longrightarrow>
     r = None \<and> entries s' = entries s \<and> next_eid s' = next_eid s \<and> mode s' = mode s \<and>
     type s' = type s \<and> collected s' = collected s \<and> intervalId s' = intervalId s \<and>
     registry s' = registry s \<and> warnings s' = warnings s \<and>
     (\<forall>j. cells s' j = (cells s j)\<lparr>lastValue := lastValue (cells s' j)\<rparr>)"
  unfolding assign_v20_def
  by (auto split: option.splits slot.splits dest: realTime_set_v20_frame)


lemma addEntry_frame:
  "mode (snd (addEntry a p k s)) = mode s" "type (snd (addEntry a p k s)) = type s"
  "collected (snd (addEntry a p k s)) = collected s" "heap (snd (addEntry a p k s)) = heap s"
  "emitted (snd (addEntry a p k s)) = emitted s" "intervalId (snd (addEntry a p k s)) = intervalId s"
  "mode (snd (addEntry_v20 en s)) = mode s" "type (snd (addEntry_v20 en s)) = type s"
  "collected (snd (addEntry_v20 en s)) = collected s" "heap (snd (addEntry_v20 en s)) = heap s"
  "emitted (snd (addEntry_v20 en s)) = emitted s" "intervalId (snd (addEntry_v20 en s)) = intervalId s"
  by (simp_all add: addEntry_def addEntry_v20_def)

lemma addEntry_ok:
  "entries_ok s \<Longrightarrow> entries_ok (snd (addEntry a p k s))"
  "entries_ok s \<Longrightarrow> entries_ok (snd (addEntry_v20 en s))"
  by (auto simp: entries_ok_def addEntry_def addEntry_v20_def less_Suc_eq)

lemma watch_each_frame:
  "mode (snd (watch_each a ps s)) = mode s \<and> type (snd (watch_each a ps s)) = type s \<and>
   (entries_ok s \<longrightarrow> entries_ok (snd (watch_each a ps s)))"
proof (induction ps arbitrary: s)
  case Nil
  show ?case by simp
next
  case (Cons q ps)
  obtain p ck where q: "q = (p, ck)" by (cases q)
  obtain r s1 where a: "addEntry a p (resolvedKey ck p) s = (r, s1)" by (metis surj_pair)
  have s1: "mode s1 = mode s" "type s1 = type s" "entries_ok s \<longrightarrow> entries_ok s1"
    using addEntry_frame(1,2) [of a p "resolvedKey ck p" s] addEntry_ok(1) [of s a p "resolvedKey ck p"] a
    by simp_all
  show ?case
  proof (cases r)
    case None
    then show ?thesis using Cons.IH [of s1] s1 a q by simp
  next
    case (Some err)
    then show ?thesis using s1 a q by simp
  qed
qed

lemma watch_each_v20_frame:
  "mode (snd (watch_each_v20 a ps s)) = mode s \<and> type (snd (watch_each_v20 a ps s)) = type s \<and>
   (entries_ok s \<longrightarrow> entries_ok (snd (watch_each_v20 a ps s)))"
proof (induction ps arbitrary: s)
  case Nil
  show ?case by simp
next
  case (Cons q ps)
  obtain p ck where q: "q = (p, ck)" by (cases q)
  let ?en = "\<lparr>instanceRef = a, prop' = p, key = resolvedKey ck p, lastValue = get_prop s a p\<rparr>"
  obtain r s1 where a: "addEntry_v20 ?en s = (r, s1)" by (metis surj_pair)
  have s1: "mode s1 = mode s" "type s1 = type s" "entries_ok s \<longrightarrow> entries_ok s1"
    using addEntry_frame(7,8) [of ?en s] addEntry_ok(2) [of s ?en] a
    by simp_all
  show ?case
  proof (cases r)
    case None
    then show ?thesis using Cons.IH [of s1] s1 a q by simp
  next
    case (Some err)
    then show ?thesis using s1 a q by simp
  qed
qed

lemma watch_frame:
  "mode (snd (watch a w s)) = mode s" "type (snd (watch a w s)) = type s"
  "entries_ok s \<Longrightarrow> entries_ok (snd (watch a w s))"
  "mode (snd (watch_v20 a w s)) = mode s" "type (snd (watch_v20 a w s)) = type s"
  "entries_ok s \<Longrightarrow> entries_ok (snd (watch_v20 a w s))"
  by (cases w; simp add: addEntry_frame addEntry_ok watch_each_frame watch_each_v20_frame)+

lemma step_mode:
  "a \<noteq> SelectAll \<Longrightarrow> mode s = ModeChanged \<Longrightarrow> mode (step a s) = ModeChanged"
proof (cases a)
  case (Assign x p v)
  obtain r s' where "assign x p v s = (r, s')" by (metis surj_pair)
  then show "mode s = ModeChanged \<Longrightarrow> mode (step a s) = ModeChanged"
    using assign_frame Assign by fastforce
qed (simp_all add: watch_frame unwatch_def clock_def changedOnly_def tick_def check_frame
       collect_def finalize_def registry_callback_def)

lemma step_type:
  "a \<noteq> StartRealTime \<Longrightarrow> \<forall>ms. a \<noteq> StartClock ms \<Longrightarrow> type (step a s) = type s"
proof (cases a)
  case (Assign x p v)
  obtain r s' where "assign x p v s = (r, s')" by (metis surj_pair)
  then show "type (step a s) = type s"
    using assign_frame Assign by fastforce
qed (simp_all add: watch_frame unwatch_def all_def changedOnly_def tick_def check_frame
       collect_def finalize_def registry_callback_def)

lemma run_mode:
  "SelectAll \<notin> set acts \<Longrightarrow> mode s = ModeChanged \<Longrightarrow> mode (run acts s) = ModeChanged"
proof (induction acts arbitrary: s)
  case Nil
  then show ?case by simp
next
  case (Cons a acts)
  then have "a \<noteq> SelectAll" by auto
  then have "mode (step a s) = ModeChanged" using Cons.prems by (simp add: step_mode)
  then show ?case using Cons by simp
qed

lemma run_type:
  "StartRealTime \<notin> set acts \<Longrightarrow> \<forall>ms. StartClock ms \<notin> set acts \<Longrightarrow> type (run acts s) = type s"
proof (induction acts arbitrary: s)
  case Nil
  show ?case by simp
next
  case (Cons a acts)
  then have "type (step a s) = type s" by (intro step_type) auto
  moreover have "type (run acts (step a s)) = type (step a s)" using Cons by simp
  ultimately show ?case by simp
qed

lemma step_ok: "entries_ok s \<Longrightarrow> entries_ok (step a s)"
proof (cases a)
  case (Assign x p v)
  obtain r s' where "assign x p v s = (r, s')" by (metis surj_pair)
  then show "entries_ok s \<Longrightarrow> entries_ok (step a s)"
    using assign_frame [of x p v s r s'] Assign by (simp add: entries_ok_def)
next
  case Tick
  then show "entries_ok s \<Longrightarrow> entries_ok (step a s)"
    by (simp add: entries_ok_def tick_def check_entries check_frame)
qed (simp_all add: watch_frame,
     simp_all add: entries_ok_def unwatch_def clock_def all_def changedOnly_def
       collect_def finalize_def registry_callback_def)

lemma reachable_entries_ok: "reachable s \<Longrightarrow> entries_ok s"
  by (induction rule: reachable.induct) (simp_all add: step_ok, simp add: entries_ok_def new_EyeOnProps_def)

lemma step_v20_ok: "entries_ok s \<Longrightarrow> entries_ok (step_v20 a s)"
proof (cases a)
  case (Assign x p v)
  obtain r s' where "assign_v20 x p v s = (r, s')" by (metis surj_pair)
  then show "entries_ok s \<Longrightarrow> entries_ok (step_v20 a s)"
    using assign_v20_frame [of x p v s r s'] Assign by (simp add: entries_ok_def)
next
  case Tick
  then show "entries_ok s \<Longrightarrow> entries_ok (step_v20 a s)"
    by (simp add: entries_ok_def tick_v20_def check_v20_frame)
qed (simp_all add: watch_frame,
     simp_all add: entries_ok_def clock_def all_def changedOnly_def)

lemma reachable_v20_entries_ok: "reachable_v20 s \<Longrightarrow> entries_ok s"
  by (induction rule: reachable_v20.induct) (simp_all add: step_v20_ok, simp add: entries_ok_def new_EyeOnProps_def)

subsection \<open>Errors of registration\<close>

lemma addEntry_error:
  "fst (addEntry a p k s) = None \<or> fst (addEntry a p k s) = Some AttributeNotFoundError"
  "fst (addEntry_v20 en s) = None \<or> fst (addEntry_v20 en s) = Some AttributeNotFoundError"
  by (simp_all add: addEntry_def addEntry_v20_def)

lemma watch_each_error:
  "fst (watch_each a ps s) = None \<or> fst (watch_each a ps s) = Some AttributeNotFoundError"
proof (induction ps arbitrary: s)
  case Nil
  show ?case by simp
next
  case (Cons q ps)
  obtain p ck where q: "q = (p, ck)" by (cases q)
  obtain r s1 where a: "addEntry a p (resolvedKey ck p) s = (r, s1)" by (metis surj_pair)
  show ?case
  proof (cases r)
    case None
    then show ?thesis using Cons.IH [of s1] a q by simp
  next
    case (Some err)
    then have "err = AttributeNotFoundError"
      using addEntry_error(1) [of a p "resolvedKey ck p" s] a by simp
    then show ?thesis using Some a q by simp
  qed
qed

lemma watch_each_v20_error:
  "fst (watch_each_v20 a ps s) = None \<or> fst (watch_each_v20 a ps s) = Some AttributeNotFoundError"
proof (induction ps arbitrary: s)
  case Nil
  show ?case by simp
next
  case (Cons q ps)
  obtain p ck where q: "q = (p, ck)" by (cases q)
  let ?en = "\<lparr>instanceRef = a, prop' = p, key = resolvedKey ck p, lastValue = get_prop s a p\<rparr>"
  obtain r s1 where a: "addEntry_v20 ?en s = (r, s1)" by (metis surj_pair)
  show ?case
  proof (cases r)
    case None
    then show ?thesis using Cons.IH [of s1] a q by simp
  next
    case (Some err)
    then have "err = AttributeNotFoundError"
      using addEntry_error(2) [of ?en s] a by simp
    then show ?thesis using Some a q by simp
  qed
qed

lemma watch_error:
  "fst (watch a w s) \<noteq> Some InvalidModeOperationError"
  "fst (watch_v20 a w s) \<noteq> Some InvalidModeOperationError"
proof -
  show "fst (watch a w s) \<noteq> Some InvalidModeOperationError"
  proof (cases w)
    case (Single p k)
    then show ?thesis using addEntry_error(1) [of a p "resolvedKey k p" s] by auto
  next
    case (Batch ps)
    then show ?thesis using watch_each_error [of a ps s] by auto
  next
    case Other
    then show ?thesis by simp
  qed
  show "fst (watch_v20 a w s) \<noteq> Some InvalidModeOperationError"
  proof (cases w)
    case (Single p k)
    then show ?thesis
      using addEntry_error(2) [of "\<lparr>instanceRef = a, prop' = p, key = resolvedKey k p, lastValue = get_prop s a p\<rparr>" s]
      by auto
  next
    case (Batch ps)
    then show ?thesis using watch_each_v20_error [of a ps s] by auto
  next
    case Other
    then show ?thesis by simp
  qed
qed

subsection \<open>C1: polling after interception\<close>

lemma step_stays_realTime:
  "type s = TypeRealTime \<Longrightarrow> type (step a s) = TypeRealTime"
  using step_type [of a s] by (cases a) (simp_all add: clock_def)

lemma run_stays_realTime:
  "type s = TypeRealTime \<Longrightarrow> type (run acts s) = TypeRealTime"
  by (induction acts arbitrary: s) (simp_all add: step_stays_realTime)

lemma step_v20_stays_realTime:
  "type s = TypeRealTime \<Longrightarrow> type (step_v20 a s) = TypeRealTime"
proof (cases a)
  case (Assign x p v)
  obtain r s' where "assign_v20 x p v s = (r, s')" by (metis surj_pair)
  then show "type s = TypeRealTime \<Longrightarrow> type (step_v20 a s) = TypeRealTime"
    using assign_v20_frame [of x p v s r s'] Assign by simp
qed (simp_all add: watch_frame clock_def all_def changedOnly_def tick_v20_def check_v20_frame)

text \<open>
  C1. \<open>realTime()\<close> sets the type to \<open>'real-time'\<close>, and nothing that happens later
  changes it. In every state with that type \<open>clock(ms)\<close> throws the
  illegal-transition error, for every \<open>ms\<close>, and the state at the throw is the state
  before the call: no timer is started, the type is still \<open>'real-time'\<close>, and no
  entry and no property is touched. This holds in both versions.
\<close>

theorem clock_after_realTime:
  "type (realTime s) = TypeRealTime \<and> type (realTime_v20 s) = TypeRealTime \<and>
   (type s = TypeRealTime \<longrightarrow>
      clock ms s = (Some IllegalStrategyTransitionError, s) \<and>
      type (step a s) = TypeRealTime \<and> type (step_v20 a s) = TypeRealTime)"
  by (simp add: clock_def step_stays_realTime step_v20_stays_realTime)

theorem clock_after_realTime_witness:
  "type (realTime poll_scene) = TypeRealTime \<and>
   intervalId poll_scene = Some 1000 \<and> intervalId (realTime poll_scene) = None \<and>
   clock 50 (realTime poll_scene) = (Some IllegalStrategyTransitionError, realTime poll_scene) \<and>
   type (step SelectAll (realTime poll_scene)) = TypeRealTime"
  using clock_after_realTime [of "realTime poll_scene" 50 SelectAll]
  by (simp add: poll_scene_def eval_defs)

subsection \<open>C2: the callback of the finalization registry\<close>

text \<open>
  C2. The callback does not remove exactly the entries of the collected object.
  \<open>addEntry\<close> registers the display key as the held value, and the callback drops every
  entry with that key, whatever its target. Here objects 1 and 2 are both watched for
  \<open>name\<close> under the default key, object 1 is collected, and the callback for it also
  removes the entry of object 2, which is live.
\<close>

theorem finalization_drops_other_object:
  "reachable same_key_scene \<and> enabled (Finalize 1 ''name'') same_key_scene \<and>
   entries same_key_scene = [0, 1] \<and>
   instanceRef (cells same_key_scene 0) = 1 \<and> collected same_key_scene 1 \<and>
   instanceRef (cells same_key_scene 1) = 2 \<and> \<not> collected same_key_scene 2 \<and>
   entries (finalize 1 ''name'' same_key_scene) = []"
proof -
  have "reachable two_objects_scene"
    unfolding two_objects_scene_def
    by (rule reachable_run [OF reachable_new]) (simp add: eval_defs)
  then have "reachable same_key_scene"
    unfolding same_key_scene_def
    by (rule reachable_step) (simp add: two_objects_scene_def eval_defs)
  then show ?thesis by (simp add: same_key_scene_def two_objects_scene_def eval_defs)
qed

subsection \<open>C3: an intercepted write under \<open>changedOnly\<close>\<close>

text \<open>
  C3. The mode is \<open>'changed'\<close> and property \<open>p\<close> of object \<open>a\<close> carries the accessor
  of \<open>realTime()\<close>, whose closure holds \<open>value\<close> and the entry \<open>e\<close>; \<open>k\<close> is the key of
  \<open>e\<close>. The assignment \<open>a[p] = v\<close> returns the state in which its events are already
  published. When \<open>v\<close> is strictly equal to \<open>value\<close> the state does not change at all:
  no event, the same \<open>lastValue\<close>. Otherwise it publishes \<open>change\<close> with \<open>{k: v}\<close>
  and then, when \<open>v\<close> also differs strictly from the \<open>lastValue\<close> of \<open>e\<close> before the
  write, \<open>change:full\<close> with \<open>{k: {new: v, old: lastValue}}\<close>, and nothing else; after
  it \<open>lastValue\<close> is \<open>v\<close> and the property reads \<open>v\<close>. Both versions do the same.
\<close>

theorem intercepted_write_changedOnly:
  assumes "mode s = ModeChanged" and "heap s a p = Some (Accessor value e)"
  shows
    "(strict_eq v value \<longrightarrow>
        assign a p v s = (None, s) \<and> assign_v20 a p v s = (None, s)) \<and>
     (\<not> strict_eq v value \<longrightarrow>
        fst (assign a p v s) = None \<and>
        emitted (snd (assign a p v s)) =
          emitted s @ Change [(key (cells s e), v)] #
            (if strict_eq v (lastValue (cells s e)) then []
             else [ChangeFull [(key (cells s e), Delta v (lastValue (cells s e)))]]) \<and>
        lastValue (cells (snd (assign a p v s)) e) = v \<and>
        get_prop (snd (assign a p v s)) a p = v \<and>
        assign_v20 a p v s = assign a p v s)"
  using assms
  by (simp add: assign_def assign_v20_def realTime_set_same realTime_set_changedOnly get_prop_def)

theorem intercepted_write_changedOnly_witness:
  "mode intercept_scene = ModeChanged \<and>
   heap intercept_scene 1 ''name'' = Some (Accessor (VStr ''A'') 0) \<and>
   key (cells intercept_scene 0) = ''n'' \<and>
   lastValue (cells intercept_scene 0) = VStr ''A'' \<and>
   \<not> strict_eq (VStr ''X'') (VStr ''A'') \<and>
   emitted (snd (assign 1 ''name'' (VStr ''X'') intercept_scene)) =
     [Change [(''n'', VStr ''X'')], ChangeFull [(''n'', Delta (VStr ''X'') (VStr ''A''))]] \<and>
   lastValue (cells (snd (assign 1 ''name'' (VStr ''X'') intercept_scene)) 0) = VStr ''X'' \<and>
   strict_eq (VStr ''A'') (VStr ''A'') \<and>
   assign 1 ''name'' (VStr ''A'') intercept_scene = (None, intercept_scene) \<and>
   heap stale_scene 1 ''name'' = Some (Accessor (VStr ''B'') 0) \<and>
   lastValue (cells stale_scene 0) = VStr ''A'' \<and>
   \<not> strict_eq (VStr ''A'') (VStr ''B'') \<and>
   emitted (snd (assign 1 ''name'' (VStr ''A'') stale_scene)) = [Change [(''n'', VStr ''A'')]]"
  using intercepted_write_changedOnly [of intercept_scene 1 "''name''" "VStr ''A''" 0 "VStr ''X''"]
    intercepted_write_changedOnly [of intercept_scene 1 "''name''" "VStr ''A''" 0 "VStr ''A''"]
    intercepted_write_changedOnly [of stale_scene 1 "''name''" "VStr ''B''" 0 "VStr ''A''"]
  by (simp add: intercept_scene_def stale_scene_def eval_defs)

subsection \<open>C4: what a poll tick reports\<close>

text \<open>
  As C4 is stated it fails where two reported entries share a display key: the
  payload is one object, and the later store overwrites the earlier one. Here both
  objects are live and polled under \<open>'all'\<close>, and the payload of the tick has the
  value of the second object only; the current value \<open>'A'\<close> of the first is not in it.
\<close>

theorem poll_tick_overwrites_shared_key:
  "reachable shared_key_scene \<and> enabled Tick shared_key_scene \<and>
   mode shared_key_scene = ModeAll \<and> entries shared_key_scene = [0, 1] \<and>
   live shared_key_scene 0 \<and> live shared_key_scene 1 \<and>
   key (cells shared_key_scene 0) = ''name'' \<and> current shared_key_scene 0 = VStr ''A'' \<and>
   key (cells shared_key_scene 1) = ''name'' \<and> current shared_key_scene 1 = VStr ''B'' \<and>
   poll_payload shared_key_scene = [(''name'', VStr ''B'')] \<and>
   emitted (tick shared_key_scene) = [Change [(''name'', VStr ''B'')]]"
proof -
  have "reachable shared_key_scene"
    unfolding shared_key_scene_def
    by (rule reachable_run [OF reachable_new]) (simp add: eval_defs)
  then show ?thesis by (simp add: shared_key_scene_def poll_payload_def eval_defs)
qed

text \<open>
  C4 (amended). One run of \<open>check()\<close>, in a state whose \<open>entries\<close> array holds each
  entry object once. An entry is reported when its target is live (version 2.0.0:
  always) and the mode is \<open>'all'\<close> or its value is strictly different from the cached
  one; under \<open>'changed'\<close> these are the changed entries, under \<open>'all'\<close> all live ones.
  For every display key other than \<open>__proto__\<close>: the payload has the key exactly
  when a reported entry has it, and its value is then the current value of the last
  reported entry with that key, in the order of registration. The \<open>lastValue\<close> of an
  entry is overwritten, with the current value, exactly when the entry is in the array,
  live and changed. One \<open>change\<close> event with the payload is published when the
  payload is not empty, and nothing otherwise.
\<close>

theorem poll_tick_payload:
  assumes "distinct (entries s)"
  shows
    "(\<forall>k. k \<noteq> ''__proto__'' \<longrightarrow>
        map_of (poll_payload s) k = map_option (current s) (last_reported s k)) \<and>
     fst ` set (poll_payload s) - {''__proto__''} =
       (\<lambda>i. key (cells s i)) ` {i \<in> set (entries s). reported s i} - {''__proto__''} \<and>
     (\<forall>j. cells (check s) j =
        (if j \<in> set (entries s) \<and> live s j \<and> changed s j
         then (cells s j)\<lparr>lastValue := current s j\<rparr> else cells s j)) \<and>
     emitted (check s) =
       emitted s @ (if poll_payload s = [] then [] else [Change (poll_payload s)]) \<and>
     (\<forall>k. k \<noteq> ''__proto__'' \<longrightarrow>
        map_of (poll_payload_v20 s) k = map_option (current s) (last_reported_v20 s k)) \<and>
     fst ` set (poll_payload_v20 s) - {''__proto__''} =
       (\<lambda>i. key (cells s i)) ` {i \<in> set (entries s). reported_v20 s i} - {''__proto__''} \<and>
     (\<forall>j. cells (check_v20 s) j =
        (if j \<in> set (entries s) \<and> changed s j
         then (cells s j)\<lparr>lastValue := current s j\<rparr> else cells s j)) \<and>
     emitted (check_v20 s) =
       emitted s @ (if poll_payload_v20 s = [] then [] else [Change (poll_payload_v20 s)])"
proof -
  have l: "\<forall>k. k \<noteq> ''__proto__'' \<longrightarrow>
        map_of (poll_payload s) k = map_option (current s) (last_reported s k)"
    by (intro allI impI) (rule poll_payload_lookup(1) [OF assms])
  have l0: "\<forall>k. k \<noteq> ''__proto__'' \<longrightarrow>
        map_of (poll_payload_v20 s) k = map_option (current s) (last_reported_v20 s k)"
    by (intro allI impI) (rule poll_payload_lookup(2) [OF assms])
  have c: "\<forall>j. cells (check s) j =
        (if j \<in> set (entries s) \<and> live s j \<and> changed s j
         then (cells s j)\<lparr>lastValue := current s j\<rparr> else cells s j)"
    by (intro allI) (rule check_cells [OF assms])
  have c0: "\<forall>j. cells (check_v20 s) j =
        (if j \<in> set (entries s) \<and> changed s j
         then (cells s j)\<lparr>lastValue := current s j\<rparr> else cells s j)"
    by (intro allI) (rule check_v20_cells [OF assms])
  show ?thesis
    by (intro conjI)
      (rule l, rule poll_payload_keys(1) [OF assms], rule c, rule check_emitted,
       rule l0, rule poll_payload_keys(2) [OF assms], rule c0, rule check_v20_emitted)
qed

theorem poll_tick_payload_witness:
  "distinct (entries poll_scene) \<and>
   fst ` set (poll_payload poll_scene) = {''a'', ''b''} \<and>
   map_of (poll_payload poll_scene) ''a'' = Some (VNum 3) \<and>
   map_of (poll_payload poll_scene) ''b'' = Some (VNum 2) \<and>
   lastValue (cells poll_scene 0) = VNum 1 \<and>
   lastValue (cells (check poll_scene) 0) = VNum 3 \<and>
   lastValue (cells (check poll_scene) 1) = VNum 2 \<and>
   emitted (check poll_scene) = [Change [(''a'', VNum 3), (''b'', VNum 2)]] \<and>
   emitted (check_v20 poll_scene) = [Change [(''a'', VNum 3), (''b'', VNum 2)]] \<and>
   emitted (check (changedOnly poll_scene)) = [Change [(''a'', VNum 3)]] \<and>
   emitted (check (check poll_scene)) = emitted (check poll_scene) @ [Change [(''a'', VNum 3), (''b'', VNum 2)]] \<and>
   emitted (check (check (changedOnly poll_scene))) = [Change [(''a'', VNum 3)]] \<and>
   distinct (entries shared_key_scene) \<and>
   last_reported shared_key_scene ''name'' = Some 1 \<and>
   map_of (poll_payload shared_key_scene) ''name'' = Some (VStr ''B'')"
  using poll_tick_payload [of poll_scene] poll_tick_payload [of shared_key_scene]
  by (simp add: poll_scene_def shared_key_scene_def poll_payload_def eval_defs eval_defs_v20)

text \<open>
  The key that the statement leaves out. A store under \<open>__proto__\<close> adds no own
  property to the payload: the changed entry is missing from it, no event is
  published, and its \<open>lastValue\<close> is overwritten all the same.
\<close>

lemma poll_tick_proto_key:
  "key (cells proto_key_scene 0) = ''__proto__''"
  "lastValue (cells proto_key_scene 0) = VNum 1" "current proto_key_scene 0 = VNum 2"
  "poll_payload proto_key_scene = []" "emitted (tick proto_key_scene) = []"
  "lastValue (cells (tick proto_key_scene) 0) = VNum 2"
  by (simp_all add: proto_key_scene_def poll_payload_def eval_defs)

subsection \<open>C5: registering a missing attribute\<close>

text \<open>
  C5. When \<open>p\<close> is not a property of \<open>instance\<close>, \<open>watch(instance, p, k)\<close> throws the
  attribute-not-found error, as does the \<open>addEntry\<close> it calls, and the state at the
  throw is the state before the call: no entry is added. A batch whose first item
  names \<open>p\<close> does the same. This holds in both versions.
\<close>

theorem watch_missing_attribute:
  "\<not> has_prop s instance p \<longrightarrow>
     watch instance (Single p k) s = (Some AttributeNotFoundError, s) \<and>
     addEntry instance p k' s = (Some AttributeNotFoundError, s) \<and>
     watch instance (Batch ((p, k) # rest)) s = (Some AttributeNotFoundError, s) \<and>
     watch_v20 instance (Single p k) s = (Some AttributeNotFoundError, s) \<and>
     addEntry_v20 \<lparr>instanceRef = instance, prop' = p, key = k', lastValue = lv\<rparr> s
       = (Some AttributeNotFoundError, s) \<and>
     watch_v20 instance (Batch ((p, k) # rest)) s = (Some AttributeNotFoundError, s)"
  by (simp add: addEntry_def addEntry_v20_def)

theorem watch_missing_attribute_witness:
  "\<not> has_prop poll_scene 1 ''c'' \<and> entries poll_scene = [0, 1] \<and>
   watch 1 (Single ''c'' None) poll_scene = (Some AttributeNotFoundError, poll_scene) \<and>
   entries (snd (watch 1 (Single ''c'' None) poll_scene)) = [0, 1] \<and>
   watch_v20 1 (Single ''c'' None) poll_scene = (Some AttributeNotFoundError, poll_scene)"
  using watch_missing_attribute [of poll_scene 1 "''c''" None]
  by (simp add: poll_scene_def eval_defs)

text \<open>
  A batch stops at its first missing property: the items before it stay registered,
  the items after it are never looked at.
\<close>

lemma watch_batch_stops_at_first_missing:
  "watch 1 (Batch [(''a'', Some ''k''), (''c'', None), (''b'', None)]) poll_scene
     = (Some AttributeNotFoundError,
        snd (watch 1 (Single ''a'' (Some ''k'')) poll_scene))"
  "entries (snd (watch 1 (Batch [(''a'', Some ''k''), (''c'', None), (''b'', None)]) poll_scene))
     = [0, 1, 2]"
  by (simp_all add: poll_scene_def eval_defs)

subsection \<open>C6: what a detection pass does to the entries\<close>

text \<open>
  As C6 is stated it fails in version 2.1.0: the callback that \<open>check()\<close> gives to
  \<open>filter\<close> returns \<open>false\<close> for an entry whose target is collected, and the filtered
  array replaces \<open>this.entries\<close>. Here the one entry is gone after the tick.
\<close>

theorem tick_drops_collected_entry:
  "reachable collected_scene \<and> enabled Tick collected_scene \<and>
   entries collected_scene = [0] \<and> entries (tick collected_scene) = []"
proof -
  have "reachable collected_scene"
    unfolding collected_scene_def
    by (rule reachable_run [OF reachable_new]) (simp add: eval_defs)
  then show ?thesis by (simp add: collected_scene_def eval_defs)
qed

text \<open>
  C6 (amended). A detection pass adds no entry and changes of an entry object nothing
  but its \<open>lastValue\<close>. An intercepted write, and any other assignment, leaves the
  \<open>entries\<close> array as it is. A poll tick of version 2.1.0 keeps, in their order, the
  entries whose target is live and drops the entries whose target is collected; a
  poll tick of version 2.0.0 keeps the array as it is.
\<close>

theorem detection_pass_entry_set:
  "entries (check s) = filter (live s) (entries s) \<and>
   entries (check_v20 s) = entries s \<and>
   entries (snd (assign a p v s)) = entries s \<and>
   entries (snd (assign_v20 a p v s)) = entries s \<and>
   (\<forall>j. cells (check s) j = (cells s j)\<lparr>lastValue := lastValue (cells (check s) j)\<rparr>) \<and>
   (\<forall>j. cells (check_v20 s) j = (cells s j)\<lparr>lastValue := lastValue (cells (check_v20 s) j)\<rparr>) \<and>
   (\<forall>j. cells (snd (assign a p v s)) j =
          (cells s j)\<lparr>lastValue := lastValue (cells (snd (assign a p v s)) j)\<rparr>) \<and>
   (\<forall>j. cells (snd (assign_v20 a p v s)) j =
          (cells s j)\<lparr>lastValue := lastValue (cells (snd (assign_v20 a p v s)) j)\<rparr>)"
proof -
  obtain r s1 where a1: "assign a p v s = (r, s1)" by (metis surj_pair)
  obtain r0 s0 where a0: "assign_v20 a p v s = (r0, s0)" by (metis surj_pair)
  show ?thesis
    using assign_frame [OF a1] assign_v20_frame [OF a0] a1 a0
      check_entries [of s] check_v20_frame(1) [of s]
      check_cells_fields [of s] check_v20_cells_fields [of s]
    by simp
qed

theorem detection_pass_entry_set_witness:
  "entries poll_scene = [0, 1] \<and> entries (check poll_scene) = [0, 1] \<and>
   entries (check_v20 poll_scene) = [0, 1] \<and>
   entries (snd (assign 1 ''a'' (VNum 7) poll_scene)) = [0, 1] \<and>
   entries intercept_scene = [0] \<and>
   entries (snd (assign 1 ''name'' (VStr ''X'') intercept_scene)) = [0] \<and>
   instanceRef (cells collected_scene 0) = 1 \<and> collected collected_scene 1 \<and>
   entries (check collected_scene) = []"
  using detection_pass_entry_set [of poll_scene 1 "''a''" "VNum 7"]
    detection_pass_entry_set [of intercept_scene 1 "''name''" "VStr ''X''"]
    detection_pass_entry_set [of collected_scene]
  by (simp add: poll_scene_def intercept_scene_def collected_scene_def eval_defs eval_defs_v20)

subsection \<open>C7: \<open>unwatch\<close>\<close>

text \<open>
  As C7 is stated it fails: \<open>unwatch\<close> keeps an entry only when
  \<open>inst && inst !== instance\<close>, so it also drops every entry whose target is
  collected. Here no entry has object 2 as its target, and \<open>unwatch\<close> of object 2
  empties the array.
\<close>

theorem unwatch_drops_collected_entry:
  "reachable collected_scene \<and> enabled (Unwatch 2) collected_scene \<and>
   entries collected_scene = [0] \<and> instanceRef (cells collected_scene 0) = 1 \<and>
   entries (unwatch 2 collected_scene) = []"
proof -
  have "reachable collected_scene"
    unfolding collected_scene_def
    by (rule reachable_run [OF reachable_new]) (simp add: eval_defs)
  then show ?thesis by (simp add: collected_scene_def eval_defs)
qed

text \<open>
  C7 (amended). \<open>unwatch(a)\<close> changes nothing but the \<open>entries\<close> array, in which it
  keeps, in their order, the entries whose target is live and is not \<open>a\<close>: it removes
  every entry whose target is \<open>a\<close> and every entry whose target is collected. It
  leaves the state as it is when every entry has a live target other than \<open>a\<close>.
\<close>

theorem unwatch_entries:
  "unwatch a s =
     s\<lparr>entries := filter (\<lambda>i. live s i \<and> instanceRef (cells s i) \<noteq> a) (entries s)\<rparr> \<and>
   ((\<forall>i\<in>set (entries s). live s i \<and> instanceRef (cells s i) \<noteq> a) \<longrightarrow> unwatch a s = s)"
proof -
  have f: "(\<lambda>i. case deref s (instanceRef (cells s i)) of None \<Rightarrow> False | Some inst \<Rightarrow> inst \<noteq> a)
         = (\<lambda>i. live s i \<and> instanceRef (cells s i) \<noteq> a)"
    by (auto simp: fun_eq_iff deref_def)
  have "(\<forall>i\<in>set (entries s). live s i \<and> instanceRef (cells s i) \<noteq> a) \<longrightarrow>
        filter (\<lambda>i. live s i \<and> instanceRef (cells s i) \<noteq> a) (entries s) = entries s"
    by (simp add: filter_id_conv)
  then show ?thesis unfolding unwatch_def f by auto
qed

theorem unwatch_entries_witness:
  "entries two_objects_scene = [0, 1] \<and>
   instanceRef (cells two_objects_scene 0) = 1 \<and> instanceRef (cells two_objects_scene 1) = 2 \<and>
   entries (unwatch 1 two_objects_scene) = [1] \<and>
   live two_objects_scene 0 \<and> live two_objects_scene 1 \<and>
   unwatch 3 two_objects_scene = two_objects_scene"
  using unwatch_entries [of 1 two_objects_scene] unwatch_entries [of 3 two_objects_scene]
  by (simp add: two_objects_scene_def eval_defs)

subsection \<open>C8: a poll tick publishes no detailed event\<close>

text \<open>
  C8. In every state and under every mode, \<open>check()\<close>, and so a firing of the poll
  timer, adds nothing to the published events or adds one \<open>change\<close> event; it never
  adds a \<open>change:full\<close> event. This holds in both versions.
\<close>

theorem poll_publishes_no_full:
  "(emitted (check s) = emitted s \<or> (\<exists>updates. emitted (check s) = emitted s @ [Change updates])) \<and>
   (emitted (tick s) = emitted s \<or> (\<exists>updates. emitted (tick s) = emitted s @ [Change updates])) \<and>
   (emitted (check_v20 s) = emitted s \<or>
      (\<exists>updates. emitted (check_v20 s) = emitted s @ [Change updates])) \<and>
   (emitted (tick_v20 s) = emitted s \<or>
      (\<exists>updates. emitted (tick_v20 s) = emitted s @ [Change updates]))"
  by (simp add: tick_def tick_v20_def check_emitted check_v20_emitted)

theorem poll_publishes_no_full_witness:
  "emitted poll_scene = [] \<and>
   emitted (tick poll_scene) = [Change [(''a'', VNum 3), (''b'', VNum 2)]] \<and>
   emitted (tick_v20 poll_scene) = [Change [(''a'', VNum 3), (''b'', VNum 2)]]"
  using poll_publishes_no_full [of poll_scene]
  by (simp add: poll_scene_def eval_defs eval_defs_v20)

subsection \<open>C9: the guard of \<open>buildFullAllPayload\<close>\<close>

text \<open>
  C9. \<open>buildFullAllPayload()\<close> throws its invalid-mode error exactly when the mode is
  not \<open>'all'\<close>, and returns a payload exactly when it is. The setter, which is its only
  caller, passes on what it throws; yet the setter, and the assignment that runs it,
  never throw, in any state: the call is made only under \<open>this.mode === 'all'\<close>. No
  other public method throws that error either. This holds in both versions.
\<close>

theorem buildFullAllPayload_guard:
  "(buildFullAllPayload s = Inl InvalidModeOperationError) = (mode s \<noteq> ModeAll) \<and>
   (\<exists>payload. buildFullAllPayload s = Inr payload) = (mode s = ModeAll) \<and>
   (buildFullAllPayload_v20 s = Inl InvalidModeOperationError) = (mode s \<noteq> ModeAll) \<and>
   (\<exists>payload. buildFullAllPayload_v20 s = Inr payload) = (mode s = ModeAll) \<and>
   fst (realTime_set a p value e v s) = None \<and> fst (assign a p v s) = None \<and>
   fst (realTime_set_v20 a p value e v s) = None \<and> fst (assign_v20 a p v s) = None \<and>
   fst (watch a w s) \<noteq> Some InvalidModeOperationError \<and>
   fst (watch_v20 a w s) \<noteq> Some InvalidModeOperationError \<and>
   fst (clock ms s) \<noteq> Some InvalidModeOperationError"
proof -
  have "fst (realTime_set a p value e v s) = None"
    using realTime_set_frame [of a p "value" e v s] by (metis prod.collapse)
  moreover have "fst (assign a p v s) = None"
    using assign_frame [of a p v s] by (metis prod.collapse)
  moreover have "fst (realTime_set_v20 a p value e v s) = None"
    using realTime_set_v20_frame [of a p "value" e v s] by (metis prod.collapse)
  moreover have "fst (assign_v20 a p v s) = None"
    using assign_v20_frame [of a p v s] by (metis prod.collapse)
  ultimately show ?thesis
    by (simp add: buildFullAllPayload_def buildFullAllPayload_v20_def watch_error clock_def)
qed

theorem buildFullAllPayload_guard_witness:
  "mode (all intercept_scene) = ModeAll \<and>
   buildFullAllPayload (all intercept_scene) = Inr [(''n'', Delta (VStr ''A'') (VStr ''A''))] \<and>
   buildFullAllPayload intercept_scene = Inl InvalidModeOperationError \<and>
   assign 1 ''name'' (VStr ''X'') (all intercept_scene) =
     (None, snd (assign 1 ''name'' (VStr ''X'') (all intercept_scene))) \<and>
   emitted (snd (assign 1 ''name'' (VStr ''X'') (all intercept_scene))) =
     [Change [(''n'', VStr ''X'')], ChangeFull [(''n'', Delta (VStr ''X'') (VStr ''A''))]]"
  using buildFullAllPayload_guard [of "all intercept_scene" 1 "''name''" "VStr ''A''" 0 "VStr ''X''"]
    buildFullAllPayload_guard [of intercept_scene]
  by (simp add: intercept_scene_def eval_defs)

subsection \<open>C10: a fresh engine\<close>

lemma run_ok: "entries_ok s \<Longrightarrow> entries_ok (run acts s)"
  by (induction acts arbitrary: s) (simp_all add: step_ok)

text \<open>
  C10. \<open>new EyeOnProps()\<close> has mode \<open>'changed'\<close> and type \<open>'undefined'\<close> (both
  versions initialise the two fields alike). Whatever happens next, as long as \<open>all()\<close>
  has not been called the mode is still \<open>'changed'\<close>, and the payload of a poll tick
  then has, \<open>__proto__\<close> apart, the keys of the live entries whose value changed, and
  no others; as long as neither \<open>clock()\<close> nor \<open>realTime()\<close> has been called the
  type is still \<open>'undefined'\<close>.
\<close>

theorem fresh_engine_defaults:
  "mode new_EyeOnProps = ModeChanged \<and> type new_EyeOnProps = TypeUndefined \<and>
   (SelectAll \<notin> set acts \<longrightarrow>
      mode (run acts new_EyeOnProps) = ModeChanged \<and>
      fst ` set (poll_payload (run acts new_EyeOnProps)) - {''__proto__''} =
        (\<lambda>i. key (cells (run acts new_EyeOnProps) i)) `
          {i \<in> set (entries (run acts new_EyeOnProps)).
             live (run acts new_EyeOnProps) i \<and> changed (run acts new_EyeOnProps) i}
        - {''__proto__''}) \<and>
   (StartRealTime \<notin> set acts \<and> (\<forall>ms. StartClock ms \<notin> set acts) \<longrightarrow>
      type (run acts new_EyeOnProps) = TypeUndefined)"
proof -
  have "entries_ok new_EyeOnProps" by (simp add: entries_ok_def new_EyeOnProps_def)
  then have "distinct (entries (run acts new_EyeOnProps))"
    using run_ok [of new_EyeOnProps acts] by (simp add: entries_ok_def)
  then have keys: "fst ` set (poll_payload (run acts new_EyeOnProps)) - {''__proto__''} =
      (\<lambda>i. key (cells (run acts new_EyeOnProps) i)) `
        {i \<in> set (entries (run acts new_EyeOnProps)). reported (run acts new_EyeOnProps) i}
      - {''__proto__''}"
    by (rule poll_payload_keys(1))
  have m: "SelectAll \<notin> set acts \<Longrightarrow> mode (run acts new_EyeOnProps) = ModeChanged"
    using run_mode [of acts new_EyeOnProps] by (simp add: new_EyeOnProps_def)
  have ty: "StartRealTime \<notin> set acts \<and> (\<forall>ms. StartClock ms \<notin> set acts) \<Longrightarrow>
      type (run acts new_EyeOnProps) = TypeUndefined"
    using run_type [of acts new_EyeOnProps] by (simp add: new_EyeOnProps_def)
  have k: "SelectAll \<notin> set acts \<Longrightarrow>
      fst ` set (poll_payload (run acts new_EyeOnProps)) - {''__proto__''} =
        (\<lambda>i. key (cells (run acts new_EyeOnProps) i)) `
          {i \<in> set (entries (run acts new_EyeOnProps)).
             live (run acts new_EyeOnProps) i \<and> changed (run acts new_EyeOnProps) i}
        - {''__proto__''}"
  proof -
    assume "SelectAll \<notin> set acts"
    then have "mode (run acts new_EyeOnProps) \<noteq> ModeAll" using m by simp
    then have "{i \<in> set (entries (run acts new_EyeOnProps)). reported (run acts new_EyeOnProps) i}
        = {i \<in> set (entries (run acts new_EyeOnProps)).
             live (run acts new_EyeOnProps) i \<and> changed (run acts new_EyeOnProps) i}"
      by simp
    then show ?thesis using keys by (simp only:)
  qed
  have "mode new_EyeOnProps = ModeChanged" "type new_EyeOnProps = TypeUndefined"
    by (simp_all add: new_EyeOnProps_def)
  then show ?thesis using m ty k by (intro conjI impI) (assumption | simp only:)+
qed

theorem fresh_engine_defaults_witness:
  "SelectAll \<notin> set fresh_poll_acts \<and>
   mode (run fresh_poll_acts new_EyeOnProps) = ModeChanged \<and>
   emitted (tick (run fresh_poll_acts new_EyeOnProps)) = [Change [(''a'', VNum 3)]] \<and>
   StartRealTime \<notin> set (take 3 fresh_poll_acts) \<and>
   type (run (take 3 fresh_poll_acts) new_EyeOnProps) = TypeUndefined"
proof -
  have a: "SelectAll \<notin> set fresh_poll_acts"
    by (simp add: fresh_poll_acts_def)
  have b: "StartRealTime \<notin> set (take 3 fresh_poll_acts) \<and>
      (\<forall>ms. StartClock ms \<notin> set (take 3 fresh_poll_acts))"
    by (simp add: fresh_poll_acts_def)
  have m: "mode (run fresh_poll_acts new_EyeOnProps) = ModeChanged"
    using fresh_engine_defaults [of fresh_poll_acts] a by blast
  have ty: "type (run (take 3 fresh_poll_acts) new_EyeOnProps) = TypeUndefined"
    using fresh_engine_defaults [of "take 3 fresh_poll_acts"] b by blast
  have e: "emitted (tick (run fresh_poll_acts new_EyeOnProps)) = [Change [(''a'', VNum 3)]]"
    by (simp add: fresh_poll_acts_def eval_defs)
  from b have b': "StartRealTime \<notin> set (take 3 fresh_poll_acts)" ..
  show ?thesis by (intro conjI) (rule a, rule m, rule e, rule b', rule ty)
qed

end
